theory Spec2Isabelle
  imports Main "HOL-Library.AList" "HOL-Library.Sublist"
begin

text \<open>
  The TRMNL screenshot add-on: the profile manager (\<^verbatim>\<open>profile-manager.js\<close>), the screenshot
  service (\<^verbatim>\<open>screenshot-service.js\<close>) and the one HTTP handler that updates a profile
  (\<^verbatim>\<open>server.js\<close>), embedded as functions on explicit state, and what holds of them.
\<close>

section \<open>JavaScript values and objects\<close>

text \<open>
  Profiles are plain JavaScript objects that travel through \<^verbatim>\<open>JSON.parse\<close> and
  \<^verbatim>\<open>JSON.stringify\<close>, and \<^verbatim>\<open>updateProfile\<close> stores whatever value the request body
  carries. The values are therefore kept dynamically typed. Numbers are modelled as
  unbounded integers; nested arrays and objects are not modelled.

  An object is an association list in insertion order: assigning to a key that exists
  keeps its position, assigning to a new key appends it, which is what
  \<^const>\<open>AList.update\<close> does. A key that is absent reads as \<^verbatim>\<open>undefined\<close>, written
  \<^term>\<open>None\<close>. For profiles and request bodies the own keys are all there is to read:
  none of the field names the code uses is inherited from \<^verbatim>\<open>Object.prototype\<close>. The
  store of profiles is looked up by arbitrary strings, and there inherited names count
  (see \<open>lookup\<close> below).
\<close>

datatype jsval = JNull | JBool bool | JNum int | JStr string

type_synonym js_object = "(string \<times> jsval) list"

definition get_field :: "js_object \<Rightarrow> string \<Rightarrow> jsval option" where
  "get_field obj k = map_of obj k"

definition set_field :: "string \<Rightarrow> jsval \<Rightarrow> js_object \<Rightarrow> js_object" where
  "set_field k v obj = AList.update k v obj"

text \<open>Truthiness, as \<^verbatim>\<open>if (x)\<close>, \<^verbatim>\<open>!x\<close>, \<^verbatim>\<open>x || d\<close> and \<^verbatim>\<open>x && y\<close> test it.\<close>

fun truthy :: "jsval option \<Rightarrow> bool" where
  "truthy None = False"
| "truthy (Some JNull) = False"
| "truthy (Some (JBool b)) = b"
| "truthy (Some (JNum n)) = (n \<noteq> 0)"
| "truthy (Some (JStr s)) = (s \<noteq> [])"

text \<open>\<^verbatim>\<open>x || d\<close>: the value of \<open>x\<close> when it is truthy, else \<open>d\<close>.\<close>

definition js_or :: "jsval option \<Rightarrow> jsval \<Rightarrow> jsval" where
  "js_or x d = (if truthy x then the x else d)"

text \<open>
  What the language runtime does with strings is not part of the repository: the
  conversion of a string to a number and \<^verbatim>\<open>Date.parse\<close> are parameters. \<^term>\<open>None\<close>
  stands for \<^verbatim>\<open>NaN\<close>.
\<close>

record js_runtime =
  str_to_number :: "string \<Rightarrow> int option"
  date_parse :: "string \<Rightarrow> int option"

fun to_number :: "js_runtime \<Rightarrow> jsval option \<Rightarrow> int option" where
  "to_number rt None = None"
| "to_number rt (Some JNull) = Some 0"
| "to_number rt (Some (JBool b)) = Some (if b then 1 else 0)"
| "to_number rt (Some (JNum n)) = Some n"
| "to_number rt (Some (JStr s)) = str_to_number rt s"

text \<open>\<^verbatim>\<open>new Date(v).getTime()\<close>: a string is parsed as a date, anything else is a number.\<close>

fun date_time :: "js_runtime \<Rightarrow> jsval option \<Rightarrow> int option" where
  "date_time rt (Some (JStr s)) = date_parse rt s"
| "date_time rt v = to_number rt v"

text \<open>Arithmetic and comparison on numbers that may be \<^verbatim>\<open>NaN\<close>.\<close>

fun num_add :: "int option \<Rightarrow> int option \<Rightarrow> int option" where
  "num_add (Some a) (Some b) = Some (a + b)"
| "num_add _ _ = None"

fun num_mul :: "int option \<Rightarrow> int option \<Rightarrow> int option" where
  "num_mul (Some a) (Some b) = Some (a * b)"
| "num_mul _ _ = None"

fun num_le :: "int option \<Rightarrow> int option \<Rightarrow> bool" where
  "num_le (Some a) (Some b) = (a \<le> b)"
| "num_le _ _ = False"

text \<open>\<^verbatim>\<open>v + 1\<close>: a string concatenates, everything else adds as a number.\<close>

fun js_add_one :: "jsval \<Rightarrow> jsval" where
  "js_add_one (JStr s) = JStr (s @ ''1'')"
| "js_add_one (JNum n) = JNum (n + 1)"
| "js_add_one (JBool b) = JNum ((if b then 1 else 0) + 1)"
| "js_add_one JNull = JNum 1"

fun is_number :: "jsval option \<Rightarrow> bool" where
  "is_number (Some (JNum n)) = True"
| "is_number _ = False"

fun is_string :: "jsval option \<Rightarrow> bool" where
  "is_string (Some (JStr s)) = True"
| "is_string _ = False"

section \<open>The profile manager\<close>

text \<open>
  \<open>profiles\<close> is \<^verbatim>\<open>this.profiles\<close>, its own keys in insertion order. \<open>persisted\<close> is
  the content of \<^verbatim>\<open>profiles.json\<close> as last written, \<open>writes\<close> counts the times it was
  written, and \<open>writable\<close> says whether \<^verbatim>\<open>fs.writeFileSync\<close> on that file succeeds.

  \<^verbatim>\<open>this.profiles\<close> is a plain object, so \<^verbatim>\<open>this.profiles[id]\<close> with an \<open>id\<close> that is not
  one of its own keys goes on to \<^verbatim>\<open>Object.prototype\<close> and finds, under the names below,
  the functions every object inherits (\<^verbatim>\<open>this.profiles['constructor']\<close> is \<^verbatim>\<open>Object\<close>).
  \<^verbatim>\<open>this.profiles['__proto__']\<close> is \<^verbatim>\<open>Object.prototype\<close> itself. \<open>inherited\<close> holds the
  properties the program has put on those functions and, under the name \<^verbatim>\<open>__proto__\<close>,
  on \<^verbatim>\<open>Object.prototype\<close>. A property put on \<^verbatim>\<open>Object.prototype\<close> is from then on
  inherited by every object of the process; the model records it and does not follow it
  into later reads, which look at own keys only.
\<close>

record manager =
  profiles :: "(string \<times> js_object) list"
  inherited :: "(string \<times> js_object) list"
  persisted :: "(string \<times> js_object) list"
  writes :: nat
  writable :: bool

definition object_prototype_functions :: "string list" where
  "object_prototype_functions =
     [''constructor'', ''hasOwnProperty'', ''isPrototypeOf'', ''propertyIsEnumerable'',
      ''toLocaleString'', ''toString'', ''valueOf'', ''__defineGetter__'', ''__defineSetter__'',
      ''__lookupGetter__'', ''__lookupSetter__'']"

text \<open>
  What \<^verbatim>\<open>this.profiles[id]\<close> finds: a profile of the store, an inherited function, or
  \<^verbatim>\<open>Object.prototype\<close>; each with the properties it carries.
\<close>

datatype found = OwnProfile js_object | InheritedFunction js_object | ObjectPrototype js_object

fun properties :: "found \<Rightarrow> js_object" where
  "properties (OwnProfile p) = p"
| "properties (InheritedFunction p) = p"
| "properties (ObjectPrototype p) = p"

definition lookup :: "manager \<Rightarrow> string \<Rightarrow> found option" where
  "lookup m pid =
     (case map_of (profiles m) pid of
        Some p \<Rightarrow> Some (OwnProfile p)
      | None \<Rightarrow>
          (if pid \<in> set object_prototype_functions
           then Some (InheritedFunction (case map_of (inherited m) pid of None \<Rightarrow> [] | Some p \<Rightarrow> p))
           else if pid = ''__proto__''
           then Some (ObjectPrototype (case map_of (inherited m) pid of None \<Rightarrow> [] | Some p \<Rightarrow> p))
           else None))"

text \<open>
  The functions below change the object they found in place; \<open>mutate\<close> puts the changed
  properties back where the object lives.
\<close>

definition mutate :: "manager \<Rightarrow> string \<Rightarrow> js_object \<Rightarrow> manager" where
  "mutate m pid p =
     (case map_of (profiles m) pid of
        Some old \<Rightarrow> m\<lparr>profiles := AList.update pid p (profiles m)\<rparr>
      | None \<Rightarrow> m\<lparr>inherited := AList.update pid p (inherited m)\<rparr>)"

datatype error = PersistFailed | ProfileNotFound string | ReadOnlyProperty string

definition saveProfiles :: "manager \<Rightarrow> (error + unit) \<times> manager" where
  "saveProfiles m =
     (if writable m then (Inr (), m\<lparr>persisted := profiles m, writes := writes m + 1\<rparr>)
      else (Inl PersistFailed, m))"

text \<open>
  The constructor when \<^verbatim>\<open>profiles.json\<close> does not exist: an empty store, written at once
  (a failure of that write is caught and logged).
\<close>

definition new_manager :: "bool \<Rightarrow> manager" where
  "new_manager w =
     snd (saveProfiles \<lparr>profiles = [], inherited = [], persisted = [], writes = 0, writable = w\<rparr>)"

text \<open>
  \<^verbatim>\<open>createProfile(config)\<close>. The random identifier (sixteen hex digits) and the clock
  reading (the string \<^verbatim>\<open>new Date().toISOString()\<close> returns) are inputs.
\<close>

definition new_profile :: "js_object \<Rightarrow> string \<Rightarrow> string \<Rightarrow> js_object" where
  "new_profile config pid now =
     [(''id'', JStr pid),
      (''name'', js_or (get_field config ''name'') (JStr (''Profile '' @ take 4 pid))),
      (''url'', js_or (get_field config ''url'')
                 (JStr ''http://homeassistant.local:8123/lovelace/default'')),
      (''width'', js_or (get_field config ''width'') (JNum 800)),
      (''height'', js_or (get_field config ''height'') (JNum 480)),
      (''theme'', js_or (get_field config ''theme'') (JStr ''light'')),
      (''refreshInterval'', js_or (get_field config ''refreshInterval'') (JNum 0)),
      (''outputFormat'', js_or (get_field config ''outputFormat'') (JStr ''png'')),
      (''enabled'', JBool (get_field config ''enabled'' \<noteq> Some (JBool False))),
      (''description'', js_or (get_field config ''description'') (JStr [])),
      (''created'', JStr now),
      (''lastRun'', JNull),
      (''lastSuccess'', JNull),
      (''failureCount'', JNum 0)]"

definition createProfile ::
  "manager \<Rightarrow> js_object \<Rightarrow> string \<Rightarrow> string \<Rightarrow> (error + js_object) \<times> manager" where
  "createProfile m config pid now =
     (let profile = new_profile config pid now;
          m1 = m\<lparr>profiles := AList.update pid profile (profiles m)\<rparr>
      in case saveProfiles m1 of
           (Inl e, m2) \<Rightarrow> (Inl e, m2)
         | (Inr u, m2) \<Rightarrow> (Inr profile, m2))"

definition allowedFields :: "string list" where
  "allowedFields =
     [''name'', ''url'', ''width'', ''height'', ''theme'',
      ''refreshInterval'', ''outputFormat'', ''enabled'', ''description'']"

text \<open>One turn of the loop of \<^verbatim>\<open>updateProfile\<close>: \<^verbatim>\<open>if (field in updates) profile[field] = updates[field]\<close>.\<close>

definition copy_field :: "js_object \<Rightarrow> string \<Rightarrow> js_object \<Rightarrow> js_object" where
  "copy_field updates field profile =
     (case get_field updates field of
        Some v \<Rightarrow> set_field field v profile
      | None \<Rightarrow> profile)"

text \<open>
  \<^verbatim>\<open>updateProfile(id, updates)\<close>. The \<^verbatim>\<open>name\<close> of a function is read-only and the class
  body is strict code, so the first turn of the loop throws when the object found is an
  inherited function and the update carries \<^verbatim>\<open>name\<close>. \<^verbatim>\<open>Object.prototype\<close> is an
  ordinary object and takes every field.
\<close>

definition updateProfile ::
  "manager \<Rightarrow> string \<Rightarrow> js_object \<Rightarrow> string \<Rightarrow> (error + js_object) \<times> manager" where
  "updateProfile m pid updates now =
     (case lookup m pid of
        None \<Rightarrow> (Inl (ProfileNotFound pid), m)
      | Some target \<Rightarrow>
          (if (case target of InheritedFunction p \<Rightarrow> get_field updates ''name'' \<noteq> None
               | OwnProfile p \<Rightarrow> False
               | ObjectPrototype p \<Rightarrow> False)
           then (Inl (ReadOnlyProperty ''name''), m)
           else
             (let p1 = fold (copy_field updates) allowedFields (properties target);
                  p2 = set_field ''modified'' (JStr now) p1
              in case saveProfiles (mutate m pid p2) of
                   (Inl e, m2) \<Rightarrow> (Inl e, m2)
                 | (Inr u, m2) \<Rightarrow> (Inr p2, m2))))"

text \<open>\<^verbatim>\<open>getProfile(id)\<close> is \<^verbatim>\<open>this.profiles[id] || null\<close>.\<close>

definition getProfile :: "manager \<Rightarrow> string \<Rightarrow> found option" where
  "getProfile m pid = lookup m pid"

text \<open>
  \<^verbatim>\<open>recordCapture(id, success)\<close>. The function reads the clock twice: \<open>t_run\<close> is the
  string stored in \<^verbatim>\<open>lastRun\<close>, \<open>t_ok\<close> the one stored in \<^verbatim>\<open>lastSuccess\<close>. When the
  lookup finds nothing it returns before anything is touched.
\<close>

definition recordCapture ::
  "manager \<Rightarrow> string \<Rightarrow> bool \<Rightarrow> string \<Rightarrow> string \<Rightarrow> (error + unit) \<times> manager" where
  "recordCapture m pid success t_run t_ok =
     (case lookup m pid of
        None \<Rightarrow> (Inr (), m)
      | Some target \<Rightarrow>
          (let p1 = set_field ''lastRun'' (JStr t_run) (properties target);
               p2 = (if success
                     then set_field ''failureCount'' (JNum 0)
                            (set_field ''lastSuccess'' (JStr t_ok) p1)
                     else set_field ''failureCount''
                            (js_add_one (js_or (get_field p1 ''failureCount'') (JNum 0))) p1)
           in saveProfiles (mutate m pid p2)))"

text \<open>
  The scheduler predicate: the body of the loop of \<^verbatim>\<open>getProfilesToCapture\<close> for one
  profile, \<open>now\<close> being \<^verbatim>\<open>new Date().getTime()\<close> in milliseconds.
\<close>

definition is_due :: "js_runtime \<Rightarrow> int \<Rightarrow> js_object \<Rightarrow> bool" where
  "is_due rt now profile =
     (if \<not> truthy (get_field profile ''enabled'')
         \<or> num_le (to_number rt (get_field profile ''refreshInterval'')) (Some 0)
      then False
      else
        (let intervalMs = num_mul (to_number rt (get_field profile ''refreshInterval'')) (Some 1000);
             lastRun = (if truthy (get_field profile ''lastRun'')
                        then date_time rt (get_field profile ''lastRun'')
                        else Some 0);
             nextRun = num_add lastRun intervalMs
         in num_le nextRun (Some now)))"

definition getProfilesToCapture :: "js_runtime \<Rightarrow> manager \<Rightarrow> int \<Rightarrow> js_object list" where
  "getProfilesToCapture rt m now = filter (is_due rt now) (map snd (profiles m))"

text \<open>\<^verbatim>\<open>validateProfile(config)\<close>: the list of error messages; the configuration is valid when it is empty.\<close>

definition bad_dimension :: "jsval option \<Rightarrow> bool" where
  "bad_dimension v =
     (truthy v \<and> (case v of Some (JNum n) \<Rightarrow> n < 100 \<or> n > 4000 | _ \<Rightarrow> True))"

definition validateProfile :: "js_object \<Rightarrow> string list" where
  "validateProfile config =
     (if \<not> truthy (get_field config ''url'') \<or> \<not> is_string (get_field config ''url'')
      then [''URL is required and must be a string''] else [])
     @ (if \<not> truthy (get_field config ''name'') \<or> \<not> is_string (get_field config ''name'')
        then [''Name is required and must be a string''] else [])
     @ (if bad_dimension (get_field config ''width'')
        then [''Width must be a number between 100 and 4000''] else [])
     @ (if bad_dimension (get_field config ''height'')
        then [''Height must be a number between 100 and 4000''] else [])
     @ (if truthy (get_field config ''theme'')
           \<and> get_field config ''theme'' \<notin> Some ` JStr ` {''light'', ''dark''}
        then [''Theme must be either \"light\" or \"dark\"''] else [])
     @ (if truthy (get_field config ''refreshInterval'')
           \<and> (case get_field config ''refreshInterval'' of Some (JNum n) \<Rightarrow> n < 0 | _ \<Rightarrow> True)
        then [''Refresh interval must be a non-negative number''] else [])
     @ (if truthy (get_field config ''outputFormat'')
           \<and> get_field config ''outputFormat'' \<notin> Some ` JStr ` {''png'', ''jpeg'', ''bmp3'', ''bmp''}
        then [''Output format must be one of: png, jpeg, bmp3, bmp''] else [])"

text \<open>
  The HTTP handler of \<^verbatim>\<open>PUT /api/profiles/:id\<close>: 404 when \<^verbatim>\<open>getProfile\<close> finds nothing,
  else 200 with the updated object as JSON (a function has no JSON form: the body is
  empty); an exception becomes a 500.
\<close>

datatype response = NotFound404 | Ok200 "js_object option" | Error500 error

definition handleUpdateProfile ::
  "manager \<Rightarrow> string \<Rightarrow> js_object \<Rightarrow> string \<Rightarrow> response \<times> manager" where
  "handleUpdateProfile m pid body now =
     (case getProfile m pid of
        None \<Rightarrow> (NotFound404, m)
      | Some target \<Rightarrow>
          (case updateProfile m pid body now of
             (Inl e, m1) \<Rightarrow> (Error500 e, m1)
           | (Inr updated, m1) \<Rightarrow>
               (Ok200 (case target of OwnProfile p \<Rightarrow> Some updated
                       | InheritedFunction p \<Rightarrow> None
                       | ObjectPrototype p \<Rightarrow> Some updated),
                m1)))"

text \<open>
  A sequence of \<^verbatim>\<open>recordCapture\<close> calls on one profile, each on the manager the call
  before it left; a call is its outcome and its two clock readings.
\<close>

fun recordCaptures :: "manager \<Rightarrow> string \<Rightarrow> (bool \<times> string \<times> string) list \<Rightarrow> manager" where
  "recordCaptures m pid [] = m"
| "recordCaptures m pid ((success, t_run, t_ok) # calls) =
     recordCaptures (snd (recordCapture m pid success t_run t_ok)) pid calls"

text \<open>
  The consecutive-failure counter a sequence of outcomes leaves, starting from \<open>n\<close>:
  a success resets it, a failure adds one.
\<close>

definition count_after :: "int \<Rightarrow> bool list \<Rightarrow> int" where
  "count_after n outcomes = fold (\<lambda>success c. if success then 0 else c + 1) outcomes n"

text \<open>The profile the store holds under an identifier, as one of its own keys.\<close>

definition own_profile :: "manager \<Rightarrow> string \<Rightarrow> js_object option" where
  "own_profile m pid = map_of (profiles m) pid"

text \<open>A manager holding one profile, created through \<^const>\<open>createProfile\<close>.\<close>

definition demo_config :: js_object where
  "demo_config =
     [(''name'', JStr ''Kitchen''), (''url'', JStr ''http://h/''), (''refreshInterval'', JNum 60)]"

definition demo_manager :: manager where
  "demo_manager =
     snd (createProfile (new_manager True)
            demo_config ''a1b2c3d4e5f60718'' ''2024-05-01T10:00:00.000Z'')"

text \<open>
  A request body that \<^const>\<open>validateProfile\<close> rejects three times over, and that also
  carries a field outside the allow-list.
\<close>

definition demo_update :: js_object where
  "demo_update =
     [(''name'', JStr ''Kitchen''), (''url'', JStr ''http://h/''), (''width'', JNum 50),
      (''theme'', JStr ''blue''), (''outputFormat'', JStr ''gif''), (''failureCount'', JNum 7)]"

text \<open>
  A runtime that parses one date string, the instant 2024-05-01 10:00 UTC in
  milliseconds, and the demo profile after a capture recorded at that instant.
\<close>

definition demo_runtime :: js_runtime where
  "demo_runtime =
     \<lparr>str_to_number = (\<lambda>s. None),
      date_parse = (\<lambda>s. if s = ''2024-05-01T10:00:00.000Z'' then Some 1714557600000 else None)\<rparr>"

definition demo_ran :: js_object where
  "demo_ran =
     set_field ''lastRun'' (JStr ''2024-05-01T10:00:00.000Z'')
       (new_profile demo_config ''a1b2c3d4e5f60718'' ''2024-05-01T09:00:00.000Z'')"

section \<open>Paths and the file system\<close>

text \<open>
  \<^verbatim>\<open>path.join\<close> is Node's, on POSIX (the add-on runs in a Linux container). It joins the
  non-empty arguments with a slash and normalises: empty segments and \<^verbatim>\<open>.\<close> vanish, and
  \<^verbatim>\<open>..\<close> removes the segment before it; above the root of an absolute path \<^verbatim>\<open>..\<close> is
  dropped, in a relative path it is kept.
\<close>

fun split_slash :: "string \<Rightarrow> string list" where
  "split_slash [] = [[]]"
| "split_slash (c # cs) =
     (if c = CHR ''/'' then [] # split_slash cs
      else (case split_slash cs of
              [] \<Rightarrow> [[c]]
            | seg # segs \<Rightarrow> (c # seg) # segs))"

fun join_slash :: "string list \<Rightarrow> string" where
  "join_slash [] = []"
| "join_slash [s] = s"
| "join_slash (s # t # ss) = s @ ''/'' @ join_slash (t # ss)"

fun normalize_segments :: "bool \<Rightarrow> string list \<Rightarrow> string list \<Rightarrow> string list" where
  "normalize_segments allowAboveRoot res [] = res"
| "normalize_segments allowAboveRoot res (seg # segs) =
     (if seg = [] \<or> seg = ''.'' then normalize_segments allowAboveRoot res segs
      else if seg = ''..'' then
        (if res \<noteq> [] \<and> last res \<noteq> ''..''
         then normalize_segments allowAboveRoot (butlast res) segs
         else if allowAboveRoot then normalize_segments allowAboveRoot (res @ [''..'']) segs
         else normalize_segments allowAboveRoot res segs)
      else normalize_segments allowAboveRoot (res @ [seg]) segs)"

definition path_normalize :: "string \<Rightarrow> string" where
  "path_normalize path =
     (if path = [] then ''.''
      else
        (let isAbsolute = (hd path = CHR ''/'');
             trailingSeparator = (last path = CHR ''/'');
             p = join_slash (normalize_segments (\<not> isAbsolute) [] (split_slash path))
         in if p = [] then (if isAbsolute then ''/'' else if trailingSeparator then ''./'' else ''.'')
            else (let p1 = (if trailingSeparator then p @ ''/'' else p)
                  in if isAbsolute then ''/'' @ p1 else p1)))"

definition path_join :: "string \<Rightarrow> string \<Rightarrow> string" where
  "path_join a b =
     (let parts = filter (\<lambda>s. s \<noteq> []) [a, b]
      in if parts = [] then ''.'' else path_normalize (join_slash parts))"

text \<open>
  The file system maps an absolute path to what is there. The journal of the service
  records, in order, every call that reaches the file system or the browser, and the
  taking and giving back of a throttle slot.
\<close>

type_synonym bytes = "nat list"

datatype fs_node = File bytes | Directory

type_synonym filesystem = "string \<Rightarrow> fs_node option"

datatype step =
    CreateContext | NewPage | SetViewportSize | EmulateMedia | SetExtraHTTPHeaders
  | Goto | WaitForTimeout | Screenshot | ConvertBMP3 | ConvertJPEG | WriteFile
  | ClosePage | CloseContext

datatype event =
    Acquire | Release | Did step | Threw step
  | FsExists string | FsRead string | FsUnlink string | FsWrite string

text \<open>A path lies inside the storage root when it is the root or a path below it.\<close>

definition inside_root :: "string \<Rightarrow> string \<Rightarrow> bool" where
  "inside_root root p = (p = root \<or> prefix (root @ ''/'') p)"

definition touches :: "event \<Rightarrow> string option" where
  "touches e =
     (case e of FsExists p \<Rightarrow> Some p | FsRead p \<Rightarrow> Some p | FsUnlink p \<Rightarrow> Some p
      | FsWrite p \<Rightarrow> Some p | _ \<Rightarrow> None)"

section \<open>The screenshot service\<close>

text \<open>
  \<open>browser\<close> says whether \<^verbatim>\<open>this.browser\<close> is set. The constructor's defaults are
  \<^verbatim>\<open>/data/screenshots\<close>, 30000, 90 and 3; an option that is given replaces its
  default (the server gives the storage path only, so the two options that matter here
  are the path and the bound).
\<close>

record service =
  browser :: bool
  screenshotPath :: string
  timeout :: int
  imageQuality :: int
  maxConcurrent :: int
  activeCaptures :: int
  files :: filesystem
  journal :: "event list"

definition new_service :: "string option \<Rightarrow> int option \<Rightarrow> filesystem \<Rightarrow> service" where
  "new_service path_opt max_opt fs =
     \<lparr>browser = False,
      screenshotPath = (case path_opt of None \<Rightarrow> ''/data/screenshots'' | Some p \<Rightarrow> p),
      timeout = 30000,
      imageQuality = 90,
      maxConcurrent = (case max_opt of None \<Rightarrow> 3 | Some n \<Rightarrow> n),
      activeCaptures = 0,
      files = fs,
      journal = []\<rparr>"

definition log_event :: "event \<Rightarrow> service \<Rightarrow> service" where
  "log_event e sv = sv\<lparr>journal := journal sv @ [e]\<rparr>"

subsection \<open>Fetching and deleting a stored image\<close>

text \<open>
  \<^verbatim>\<open>getScreenshot(filename)\<close> returns the bytes or \<^verbatim>\<open>null\<close> (\<^term>\<open>None\<close>);
  \<^verbatim>\<open>readFileSync\<close> on a directory throws. The guard is \<^verbatim>\<open>String.startsWith\<close>: a test
  on characters, \<^const>\<open>prefix\<close>.
\<close>

definition getScreenshot :: "service \<Rightarrow> string \<Rightarrow> (string + bytes option) \<times> service" where
  "getScreenshot sv filename =
     (let filepath = path_join (screenshotPath sv) filename
      in if \<not> prefix (screenshotPath sv) filepath then (Inr None, sv)
         else
           (case files sv filepath of
              None \<Rightarrow> (Inr None, log_event (FsExists filepath) sv)
            | Some (File content) \<Rightarrow>
                (Inr (Some content), log_event (FsRead filepath) (log_event (FsExists filepath) sv))
            | Some Directory \<Rightarrow>
                (Inl ''EISDIR'', log_event (FsRead filepath) (log_event (FsExists filepath) sv))))"

text \<open>
  \<^verbatim>\<open>deleteScreenshot(filename)\<close>: \<^verbatim>\<open>unlinkSync\<close> on a directory throws, which the function
  catches and answers \<^verbatim>\<open>false\<close>.
\<close>

definition deleteScreenshot :: "service \<Rightarrow> string \<Rightarrow> bool \<times> service" where
  "deleteScreenshot sv filename =
     (let filepath = path_join (screenshotPath sv) filename
      in if \<not> prefix (screenshotPath sv) filepath then (False, sv)
         else
           (case files sv filepath of
              None \<Rightarrow> (False, log_event (FsExists filepath) sv)
            | Some (File content) \<Rightarrow>
                (True, (log_event (FsUnlink filepath) (log_event (FsExists filepath) sv))
                          \<lparr>files := (files sv)(filepath := None)\<rparr>)
            | Some Directory \<Rightarrow>
                (False, log_event (FsUnlink filepath) (log_event (FsExists filepath) sv))))"

text \<open>
  A file system for the examples: the storage root with one image in it, and a file in a
  sibling directory whose name starts with the name of the root.
\<close>

definition demo_files :: filesystem where
  "demo_files p =
     (if p = ''/data/screenshots'' then Some Directory
      else if p = ''/data/screenshots/screenshot-a.png'' then Some (File [7, 7])
      else if p = ''/data/screenshots-old/secret.png'' then Some (File [1, 2, 3])
      else None)"

definition demo_service :: service where
  "demo_service = (new_service None None demo_files)\<lparr>browser := True\<rparr>"

subsection \<open>The retention sweep\<close>

text \<open>
  The sweep looks at the storage directory only: the names \<^verbatim>\<open>readdirSync\<close> lists, in the
  order it lists them, and for each what \<^verbatim>\<open>statSync\<close> says. \<^verbatim>\<open>path.join(screenshotPath, f)\<close>
  for a listed name \<open>f\<close> is that entry. \<open>stat_ok\<close> is false for an entry on which
  \<^verbatim>\<open>statSync\<close> throws (a symbolic link whose target is gone); \<open>is_file\<close> is false for a
  subdirectory, on which \<^verbatim>\<open>unlinkSync\<close> throws; \<open>mtime\<close> is in milliseconds. A directory
  that does not exist is \<^term>\<open>None\<close>: \<^verbatim>\<open>readdirSync\<close> throws and the sweep answers 0.
\<close>

record dir_entry =
  entry_name :: string
  is_file :: bool
  stat_ok :: bool
  mtime :: int

type_synonym directory = "dir_entry list"

text \<open>
  The listing: names starting with \<^verbatim>\<open>screenshot-\<close>, newest first.
  \<^verbatim>\<open>Array.prototype.sort\<close> is stable, as \<^const>\<open>sort_key\<close> is.
\<close>

definition stored_newest_first :: "directory \<Rightarrow> dir_entry list" where
  "stored_newest_first entries =
     sort_key (\<lambda>e. - mtime e) (filter (\<lambda>e. prefix ''screenshot-'' (entry_name e)) entries)"

text \<open>
  The loop over the listing from index \<open>i\<close>: the names it unlinks, in order. An entry is
  chosen when its index has reached \<open>maxCount\<close> or its age exceeds \<open>maxAgeMs\<close>; the
  unlink of a chosen entry succeeds on a file and throws, caught and logged, otherwise.
\<close>

fun sweep :: "int \<Rightarrow> int \<Rightarrow> int \<Rightarrow> nat \<Rightarrow> dir_entry list \<Rightarrow> string list" where
  "sweep now maxAgeMs maxCount i [] = []"
| "sweep now maxAgeMs maxCount i (file # rest) =
     (if (int i \<ge> maxCount \<or> now - mtime file > maxAgeMs) \<and> is_file file
      then entry_name file # sweep now maxAgeMs maxCount (i + 1) rest
      else sweep now maxAgeMs maxCount (i + 1) rest)"

text \<open>
  \<^verbatim>\<open>cleanupOldScreenshots(maxAgeHours, maxCount)\<close> at the clock reading \<open>now\<close>: the number
  it returns and the directory it leaves. \<^verbatim>\<open>statSync\<close> runs on every name of the listing
  before the loop starts and inside the outer \<^verbatim>\<open>try\<close> only: when it throws on one of them
  the outer \<^verbatim>\<open>catch\<close> answers 0 and nothing has been unlinked.
\<close>

definition cleanupOldScreenshots ::
  "directory option \<Rightarrow> int \<Rightarrow> int \<Rightarrow> int \<Rightarrow> nat \<times> directory option" where
  "cleanupOldScreenshots dir now maxAgeHours maxCount =
     (case dir of
        None \<Rightarrow> (0, None)
      | Some entries \<Rightarrow>
          (if \<not> list_all stat_ok (filter (\<lambda>e. prefix ''screenshot-'' (entry_name e)) entries)
           then (0, Some entries)
           else
             (let listed = stored_newest_first entries;
                  maxAgeMs = maxAgeHours * 60 * 60 * 1000;
                  unlinked = sweep now maxAgeMs maxCount 0 listed
              in (length unlinked,
                  Some (filter (\<lambda>e. entry_name e \<notin> set unlinked) entries)))))"




text \<open>A directory holding one image and a symbolic link whose target is gone.\<close>

definition broken_link_directory :: directory where
  "broken_link_directory =
     [\<lparr>entry_name = ''screenshot-a.png'', is_file = True, stat_ok = True, mtime = 1000\<rparr>,
      \<lparr>entry_name = ''screenshot-link'', is_file = True, stat_ok = False, mtime = 0\<rparr>]"

subsection \<open>Image conversion\<close>

text \<open>
  The image library (\<^verbatim>\<open>sharp\<close>) is outside the repository. What the code fixes is which
  of its operations run on what: \<^verbatim>\<open>greyscale()\<close> decodes the buffer to grey levels 0..255,
  \<^verbatim>\<open>threshold(128)\<close> sets every pixel at or above 128 to 255 and every other to 0, and
  \<^verbatim>\<open>png({colors, dither})\<close> is the setting of the encoder, which reduces the image it is
  given to a palette (diffusing the error when \<^verbatim>\<open>dither\<close> is set) as it writes the
  output. Decoder and encoders are parameters of the environment.
\<close>

type_synonym image = "nat list list"

record png_options =
  colors :: "nat option"
  dither :: "nat option"

definition threshold :: "nat \<Rightarrow> image \<Rightarrow> image" where
  "threshold t img = map (map (\<lambda>v. if v \<ge> t then 255 else 0)) img"

text \<open>
  The environment of one capture: for every awaited call the message of the exception
  it throws, if it throws; the raster \<^verbatim>\<open>page.screenshot\<close> resolves to; the image library;
  the two clock readings and the random suffix.
\<close>

record environment =
  fault :: "step \<Rightarrow> string option"
  raster :: bytes
  greyscale :: "bytes \<Rightarrow> image"
  png_encode :: "png_options \<Rightarrow> image \<Rightarrow> bytes"
  jpeg_encode :: "int \<Rightarrow> bytes \<Rightarrow> bytes"
  stamp :: string
  random_hex :: string
  stamp_done :: string

text \<open>
  \<^verbatim>\<open>convertToBMP3(pngBuffer, bitDepth)\<close>; an exception of the library is logged and thrown
  again. With no output format set the library writes the format it read, PNG.
\<close>

definition convertToBMP3 :: "environment \<Rightarrow> bytes \<Rightarrow> int \<Rightarrow> string + bytes" where
  "convertToBMP3 env pngBuffer bitDepth =
     (case fault env ConvertBMP3 of
        Some msg \<Rightarrow> Inl msg
      | None \<Rightarrow>
          (let processed = greyscale env pngBuffer
           in Inr (if bitDepth = 1
                   then png_encode env \<lparr>colors = Some 2, dither = Some 1\<rparr> (threshold 128 processed)
                   else if bitDepth = 2
                   then png_encode env \<lparr>colors = Some 4, dither = None\<rparr> processed
                   else png_encode env \<lparr>colors = None, dither = None\<rparr> processed)))"

subsection \<open>Capturing\<close>

record capture_request =
  url :: string
  width :: "int option"
  height :: "int option"
  theme :: "string option"
  haToken :: "string option"
  outputFormat :: "string option"

text \<open>
  A result is \<^verbatim>\<open>{success: false, error}\<close> or \<^verbatim>\<open>{success: true, filename, filepath, size,
  width, height, format, timestamp}\<close>, the fields of \<^term>\<open>Success\<close> in that order.
\<close>

datatype capture_result =
    Failure string
  | Success string string nat int int string string

text \<open>
  The body of the \<^verbatim>\<open>try\<close> block is a sequence of calls, each of which may throw: an
  action returns the message thrown or a value, and the service it leaves.
\<close>

type_synonym 'a action = "service \<Rightarrow> (string + 'a) \<times> service"

definition succeed :: "'a \<Rightarrow> 'a action" where
  "succeed a sv = (Inr a, sv)"

definition and_then :: "'a action \<Rightarrow> ('a \<Rightarrow> 'b action) \<Rightarrow> 'b action" where
  "and_then m f sv = (case m sv of (Inl msg, sv1) \<Rightarrow> (Inl msg, sv1) | (Inr a, sv1) \<Rightarrow> f a sv1)"

definition await :: "environment \<Rightarrow> step \<Rightarrow> unit action" where
  "await env s sv =
     (case fault env s of
        Some msg \<Rightarrow> (Inl msg, log_event (Threw s) sv)
      | None \<Rightarrow> (Inr (), log_event (Did s) sv))"

definition convert :: "environment \<Rightarrow> string \<Rightarrow> bytes \<Rightarrow> bytes action" where
  "convert env fmt screenshotBuffer sv =
     (if fmt = ''bmp3'' \<or> fmt = ''bmp''
      then (case convertToBMP3 env screenshotBuffer 1 of
              Inl msg \<Rightarrow> (Inl msg, log_event (Threw ConvertBMP3) sv)
            | Inr finalBuffer \<Rightarrow> (Inr finalBuffer, log_event (Did ConvertBMP3) sv))
      else if fmt = ''jpeg''
      then (case fault env ConvertJPEG of
              Some msg \<Rightarrow> (Inl msg, log_event (Threw ConvertJPEG) sv)
            | None \<Rightarrow> (Inr (jpeg_encode env (imageQuality sv) screenshotBuffer),
                       log_event (Did ConvertJPEG) sv))
      else (Inr screenshotBuffer, sv))"

definition writeFileSync :: "environment \<Rightarrow> string \<Rightarrow> bytes \<Rightarrow> unit action" where
  "writeFileSync env path content sv =
     (case fault env WriteFile of
        Some msg \<Rightarrow> (Inl msg, log_event (Threw WriteFile) sv)
      | None \<Rightarrow> (Inr (), (log_event (FsWrite path) sv)\<lparr>files := (files sv)(path \<mapsto> File content)\<rparr>))"

text \<open>The file name: the clock reading with \<^verbatim>\<open>:\<close> and \<^verbatim>\<open>.\<close> replaced by \<^verbatim>\<open>-\<close>, the random suffix, the extension.\<close>

definition screenshot_filename :: "string \<Rightarrow> string \<Rightarrow> string \<Rightarrow> string" where
  "screenshot_filename isoString hash fmt =
     ''screenshot-''
     @ map (\<lambda>c. if c = CHR '':'' \<or> c = CHR ''.'' then CHR ''-'' else c) isoString
     @ ''-'' @ hash @ ''.''
     @ (if fmt = ''bmp3'' then ''bmp'' else fmt)"

definition request_format :: "capture_request \<Rightarrow> string" where
  "request_format req = (case outputFormat req of None \<Rightarrow> ''png'' | Some f \<Rightarrow> f)"

definition try_block :: "environment \<Rightarrow> capture_request \<Rightarrow> capture_result action" where
  "try_block env req =
     and_then (await env CreateContext) (\<lambda>_.
     and_then (await env NewPage) (\<lambda>_.
     and_then (await env SetViewportSize) (\<lambda>_.
     and_then (if theme req = Some ''dark'' then await env EmulateMedia else succeed ()) (\<lambda>_.
     and_then (if haToken req \<noteq> None \<and> haToken req \<noteq> Some []
               then await env SetExtraHTTPHeaders else succeed ()) (\<lambda>_.
     and_then (await env Goto) (\<lambda>_.
     and_then (await env WaitForTimeout) (\<lambda>_.
     and_then (await env Screenshot) (\<lambda>_.
     and_then (convert env (request_format req) (raster env)) (\<lambda>finalBuffer.
     and_then (\<lambda>sv. writeFileSync env
                 (path_join (screenshotPath sv)
                    (screenshot_filename (stamp env) (random_hex env) (request_format req)))
                 finalBuffer sv) (\<lambda>_.
     and_then (await env ClosePage) (\<lambda>_.
     and_then (await env CloseContext) (\<lambda>_.
     (\<lambda>sv. succeed
        (Success
           (screenshot_filename (stamp env) (random_hex env) (request_format req))
           (path_join (screenshotPath sv)
              (screenshot_filename (stamp env) (random_hex env) (request_format req)))
           (length finalBuffer)
           (case width req of None \<Rightarrow> 800 | Some w \<Rightarrow> w)
           (case height req of None \<Rightarrow> 480 | Some h \<Rightarrow> h)
           (request_format req)
           (stamp_done env)) sv)))))))))))))"

text \<open>Taking a slot is \<^verbatim>\<open>this.activeCaptures++\<close>, giving it back the \<^verbatim>\<open>finally\<close> block.\<close>

definition slot_available :: "service \<Rightarrow> bool" where
  "slot_available sv = (\<not> activeCaptures sv \<ge> maxConcurrent sv)"

definition acquire :: "service \<Rightarrow> service" where
  "acquire sv = log_event Acquire (sv\<lparr>activeCaptures := activeCaptures sv + 1\<rparr>)"

definition release :: "service \<Rightarrow> service" where
  "release sv = log_event Release (sv\<lparr>activeCaptures := activeCaptures sv - 1\<rparr>)"

text \<open>
  \<^verbatim>\<open>captureScreenshot(options)\<close> run on its own. With no slot free the caller stays in the
  polling loop, and with no other capture running it stays there for ever: \<^term>\<open>None\<close>.
\<close>

definition captureScreenshot ::
  "environment \<Rightarrow> capture_request \<Rightarrow> service \<Rightarrow> (capture_result \<times> service) option" where
  "captureScreenshot env req sv =
     (if \<not> browser sv then Some (Failure ''Browser not initialized'', sv)
      else if \<not> slot_available sv then None
      else
        (case try_block env req (acquire sv) of
           (Inr result, sv1) \<Rightarrow> Some (result, release sv1)
         | (Inl msg, sv1) \<Rightarrow> Some (Failure msg, release sv1)))"

subsection \<open>Concurrent captures\<close>

text \<open>
  JavaScript runs one caller at a time and switches only at an \<^verbatim>\<open>await\<close>. A call is
  therefore in one of three phases between switches: waiting in the polling loop, running
  (past \<^verbatim>\<open>activeCaptures++\<close>, somewhere in the \<^verbatim>\<open>try\<close> block), or finished. The test of
  the loop and the increment happen with no \<^verbatim>\<open>await\<close> between them, so they are one move.
  The system is the service and the phase of every call made so far.
\<close>

datatype phase = Waiting | Running | Finished

inductive moves :: "service \<times> phase list \<Rightarrow> service \<times> phase list \<Rightarrow> bool" where
  call_rejected:
    "\<not> browser sv \<Longrightarrow> moves (sv, ps) (sv, ps @ [Finished])"
| call_admitted:
    "browser sv \<Longrightarrow> slot_available sv \<Longrightarrow> moves (sv, ps) (acquire sv, ps @ [Running])"
| call_queued:
    "browser sv \<Longrightarrow> \<not> slot_available sv \<Longrightarrow> moves (sv, ps) (sv, ps @ [Waiting])"
| poll_admitted:
    "i < length ps \<Longrightarrow> ps ! i = Waiting \<Longrightarrow> slot_available sv
       \<Longrightarrow> moves (sv, ps) (acquire sv, ps[i := Running])"
| poll_again:
    "i < length ps \<Longrightarrow> ps ! i = Waiting \<Longrightarrow> \<not> slot_available sv
       \<Longrightarrow> moves (sv, ps) (sv, ps)"
| body_finished:
    "i < length ps \<Longrightarrow> ps ! i = Running \<Longrightarrow> try_block env req sv = (r, sv1)
       \<Longrightarrow> moves (sv, ps) (release sv1, ps[i := Finished])"
| browser_changed:
    "moves (sv, ps) (sv\<lparr>browser := b\<rparr>, ps)"

text \<open>The states a freshly constructed service can reach.\<close>

inductive reachable :: "string option \<Rightarrow> int option \<Rightarrow> filesystem \<Rightarrow> service \<times> phase list \<Rightarrow> bool" where
  initial: "reachable path_opt max_opt fs (new_service path_opt max_opt fs, [])"
| after_move: "reachable path_opt max_opt fs s \<Longrightarrow> moves s s1 \<Longrightarrow> reachable path_opt max_opt fs s1"

definition in_flight :: "phase list \<Rightarrow> nat" where
  "in_flight ps = length (filter (\<lambda>p. p = Running) ps)"

text \<open>
  A journal in which the slot is given back before the context is closed: after the
  first \<^const>\<open>Release\<close> comes a \<^term>\<open>Did CloseContext\<close>.
\<close>

definition released_then_closed :: "event list \<Rightarrow> bool" where
  "released_then_closed j =
     (Release \<in> set j \<and> Did CloseContext \<in> set (dropWhile (\<lambda>e. e \<noteq> Release) j))"

text \<open>An environment in which nothing throws, and a request for a format that is not known.\<close>

definition demo_env :: environment where
  "demo_env =
     \<lparr>fault = (\<lambda>s. None),
      raster = [137, 80, 78, 71],
      greyscale = (\<lambda>buf. [buf]),
      png_encode = (\<lambda>opts img. concat img),
      jpeg_encode = (\<lambda>q buf. buf),
      stamp = ''2024-05-01T10:00:00.000Z'',
      random_hex = ''1a2b3c4d'',
      stamp_done = ''2024-05-01T10:00:00.250Z''\<rparr>"

definition demo_request :: capture_request where
  "demo_request =
     \<lparr>url = ''http://h/'', width = None, height = None, theme = None, haToken = None,
      outputFormat = Some ''gif''\<rparr>"

text \<open>
  A profile configuration asking for the same unknown format, and a request whose format
  string holds path separators.
\<close>

definition demo_gif_config :: js_object where
  "demo_gif_config =
     [(''name'', JStr ''Kitchen''), (''url'', JStr ''http://h/''), (''outputFormat'', JStr ''gif'')]"

definition demo_escape_request :: capture_request where
  "demo_escape_request =
     \<lparr>url = ''http://h/'', width = None, height = None, theme = None, haToken = None,
      outputFormat = Some ''x/../../y''\<rparr>"

text \<open>
  A step of the \<^verbatim>\<open>try\<close> block is quiet: it leaves the counter, the bound, the browser
  and the storage root alone, and what it adds to the journal is neither the taking nor
  the giving back of a slot.
\<close>

definition quiet :: "service \<Rightarrow> service \<Rightarrow> bool" where
  "quiet sv sv1 =
     (activeCaptures sv1 = activeCaptures sv \<and> maxConcurrent sv1 = maxConcurrent sv
      \<and> browser sv1 = browser sv \<and> screenshotPath sv1 = screenshotPath sv
      \<and> (\<exists>body. journal sv1 = journal sv @ body \<and> Acquire \<notin> set body \<and> Release \<notin> set body))"

definition quiet_action :: "'a action \<Rightarrow> bool" where
  "quiet_action m = (\<forall>sv. quiet sv (snd (m sv)))"

fun is_success :: "capture_result \<Rightarrow> bool" where
  "is_success (Failure msg) = False"
| "is_success (Success fname fpath n w h fmt t) = True"

text \<open>The calls of a capture in which nothing throws, in order, \<open>path\<close> being the file written.\<close>

definition success_events :: "capture_request \<Rightarrow> string \<Rightarrow> event list" where
  "success_events req path =
     [Did CreateContext, Did NewPage, Did SetViewportSize]
     @ (if theme req = Some ''dark'' then [Did EmulateMedia] else [])
     @ (if haToken req \<noteq> None \<and> haToken req \<noteq> Some [] then [Did SetExtraHTTPHeaders] else [])
     @ [Did Goto, Did WaitForTimeout, Did Screenshot]
     @ (if request_format req = ''bmp3'' \<or> request_format req = ''bmp'' then [Did ConvertBMP3]
        else if request_format req = ''jpeg'' then [Did ConvertJPEG] else [])
     @ [FsWrite path, Did ClosePage, Did CloseContext]"

definition demo_png_request :: capture_request where
  "demo_png_request =
     \<lparr>url = ''http://h/'', width = Some 1024, height = Some 600, theme = Some ''dark'',
      haToken = Some ''token'', outputFormat = None\<rparr>"

text \<open>The throttle invariant: the counter counts the running calls and is within the bound.\<close>

definition throttle_ok :: "service \<times> phase list \<Rightarrow> bool" where
  "throttle_ok s = (activeCaptures (fst s) = int (in_flight (snd s))
                    \<and> activeCaptures (fst s) \<le> maxConcurrent (fst s))"

section \<open>Properties of the profile manager\<close>

lemma map_of_set_field: "map_of (set_field k v obj) = (map_of obj)(k \<mapsto> v)"
  by (simp add: set_field_def update_conv')

lemma get_set_field:
  "get_field (set_field k v obj) k' = (if k' = k then Some v else get_field obj k')"
  by (simp add: get_field_def map_of_set_field)

lemma get_copy_field:
  "get_field (copy_field u f p) k =
     (if k = f then (case get_field u f of Some v \<Rightarrow> Some v | None \<Rightarrow> get_field p k)
      else get_field p k)"
  by (simp add: copy_field_def get_set_field split: option.splits)

lemma get_fold_copy_field:
  "get_field (fold (copy_field u) fs p) k =
     (if k \<in> set fs then (case get_field u k of Some v \<Rightarrow> Some v | None \<Rightarrow> get_field p k)
      else get_field p k)"
proof (induction fs arbitrary: p)
  case Nil
  then show ?case by simp
next
  case (Cons f fs)
  then show ?case by (auto simp: get_copy_field split: option.splits)
qed

lemma profiles_saveProfiles: "profiles (snd (saveProfiles m)) = profiles m"
  by (simp add: saveProfiles_def)

lemma lookup_own: "map_of (profiles m) pid = Some p \<Longrightarrow> lookup m pid = Some (OwnProfile p)"
  by (simp add: lookup_def)

lemma mutate_own:
  "map_of (profiles m) pid = Some p \<Longrightarrow> mutate m pid q = m\<lparr>profiles := AList.update pid q (profiles m)\<rparr>"
  by (simp add: mutate_def)

lemma recordCapture_known:
  assumes "own_profile m pid = Some p"
  shows "own_profile (snd (recordCapture m pid success t_run t_ok)) q =
     (if q = pid
      then Some
        (if success
         then set_field ''failureCount'' (JNum 0)
                (set_field ''lastSuccess'' (JStr t_ok) (set_field ''lastRun'' (JStr t_run) p))
         else set_field ''failureCount''
                (js_add_one
                   (js_or (get_field (set_field ''lastRun'' (JStr t_run) p) ''failureCount'')
                      (JNum 0)))
                (set_field ''lastRun'' (JStr t_run) p))
      else own_profile m q)"
  using assms
  by (simp add: recordCapture_def Let_def own_profile_def lookup_own mutate_own
      profiles_saveProfiles update_conv')

lemma recordCapture_step:
  assumes "own_profile m pid = Some p"
  shows "\<exists>p'. own_profile (snd (recordCapture m pid success t_run t_ok)) pid = Some p'
          \<and> get_field p' ''lastRun'' = Some (JStr t_run)
          \<and> (success \<longrightarrow> get_field p' ''failureCount'' = Some (JNum 0)
                        \<and> get_field p' ''lastSuccess'' = Some (JStr t_ok))
          \<and> (\<not> success \<longrightarrow> get_field p' ''lastSuccess'' = get_field p ''lastSuccess''
                \<and> (get_field p ''failureCount'' = None
                       \<longrightarrow> get_field p' ''failureCount'' = Some (JNum 1))
                \<and> (\<forall>n. get_field p ''failureCount'' = Some (JNum n)
                       \<longrightarrow> get_field p' ''failureCount'' = Some (JNum (n + 1))))"
  by (simp add: recordCapture_known [OF assms] get_set_field js_or_def)

lemma recordCaptures_last:
  assumes "own_profile m pid = Some p"
  shows "\<exists>p'. own_profile (recordCaptures m pid (calls @ [(success, t_run, t_ok)])) pid = Some p'
          \<and> get_field p' ''lastRun'' = Some (JStr t_run)
          \<and> (success \<longrightarrow> get_field p' ''failureCount'' = Some (JNum 0)
                        \<and> get_field p' ''lastSuccess'' = Some (JStr t_ok))"
  using assms
proof (induction calls arbitrary: m p)
  case Nil
  from recordCapture_step [OF Nil, of success t_run t_ok] show ?case by auto
next
  case (Cons c calls)
  obtain s a b where c: "c = (s, a, b)" by (cases c)
  from recordCapture_step [OF Cons.prems, of s a b]
  obtain p1 where "own_profile (snd (recordCapture m pid s a b)) pid = Some p1" by blast
  from Cons.IH [OF this] show ?case by (simp add: c)
qed

lemma recordCaptures_count:
  assumes "own_profile m pid = Some p" and "get_field p ''failureCount'' = Some (JNum n)"
  shows "\<exists>p'. own_profile (recordCaptures m pid calls) pid = Some p'
          \<and> get_field p' ''failureCount'' = Some (JNum (count_after n (map fst calls)))"
  using assms
proof (induction calls arbitrary: m p n)
  case Nil
  then show ?case by (simp add: count_after_def)
next
  case (Cons c calls)
  obtain s a b where c: "c = (s, a, b)" by (cases c)
  from recordCapture_step [OF Cons.prems(1), of s a b] Cons.prems(2)
  obtain p1 where p1: "own_profile (snd (recordCapture m pid s a b)) pid = Some p1"
    and "get_field p1 ''failureCount'' = Some (JNum (if s then 0 else n + 1))"
    by (cases s) auto
  from Cons.IH [OF this] show ?case by (simp add: c count_after_def)
qed

lemma demo_profiles:
  "profiles demo_manager =
     [(''a1b2c3d4e5f60718'',
       new_profile demo_config ''a1b2c3d4e5f60718'' ''2024-05-01T10:00:00.000Z'')]"
  by (simp add: demo_manager_def new_manager_def createProfile_def saveProfiles_def Let_def)

lemma demo_own_profile:
  "own_profile demo_manager q =
     (if q = ''a1b2c3d4e5f60718''
      then Some (new_profile demo_config ''a1b2c3d4e5f60718'' ''2024-05-01T10:00:00.000Z'')
      else None)"
  by (simp add: own_profile_def demo_profiles)

text \<open>
  When the lookup finds nothing, \<^verbatim>\<open>recordCapture\<close> raises nothing, returns what a
  successful call returns and leaves the manager as it found it.
\<close>

lemma recordCapture_not_found:
  assumes "lookup m pid = None"
  shows "recordCapture m pid success t_run t_ok = (Inr (), m)"
  using assms by (simp add: recordCapture_def)

lemma lookup_not_found:
  "lookup m pid = None \<longleftrightarrow>
     own_profile m pid = None \<and> pid \<notin> set object_prototype_functions \<and> pid \<noteq> ''__proto__''"
  by (simp add: lookup_def own_profile_def split: option.splits)

lemma demo_manager_value:
  "demo_manager =
     \<lparr>profiles = [(''a1b2c3d4e5f60718'',
                    new_profile demo_config ''a1b2c3d4e5f60718'' ''2024-05-01T10:00:00.000Z'')],
      inherited = [],
      persisted = [(''a1b2c3d4e5f60718'',
                    new_profile demo_config ''a1b2c3d4e5f60718'' ''2024-05-01T10:00:00.000Z'')],
      writes = 2, writable = True\<rparr>"
  by (simp add: demo_manager_def new_manager_def createProfile_def saveProfiles_def Let_def)

text \<open>
  \<^bold>\<open>C10.\<close> The identifier \<^verbatim>\<open>constructor\<close> names no profile of the store, yet
  \<^verbatim>\<open>this.profiles['constructor']\<close> is the inherited function \<^verbatim>\<open>Object\<close>, which is truthy:
  \<^verbatim>\<open>recordCapture\<close> does not return early. It sets \<^verbatim>\<open>lastRun\<close> and \<^verbatim>\<open>failureCount\<close> on that
  function and writes \<^verbatim>\<open>profiles.json\<close> once more.
\<close>

theorem recordCapture_inherited_name_not_noop:
  "own_profile demo_manager ''constructor'' = None
   \<and> recordCapture demo_manager ''constructor'' False
         ''2024-05-01T10:01:00.000Z'' ''2024-05-01T10:01:00.001Z''
       = (Inr (),
          demo_manager
            \<lparr>inherited := [(''constructor'',
                             [(''lastRun'', JStr ''2024-05-01T10:01:00.000Z''),
                              (''failureCount'', JNum 1)])],
             writes := 3\<rparr>)
   \<and> recordCapture demo_manager ''constructor'' False
         ''2024-05-01T10:01:00.000Z'' ''2024-05-01T10:01:00.001Z'' \<noteq> (Inr (), demo_manager)"
  by (simp add: demo_manager_value own_profile_def recordCapture_def lookup_def mutate_def
      object_prototype_functions_def saveProfiles_def set_field_def get_field_def js_or_def Let_def)

text \<open>
  Under the name \<^verbatim>\<open>__proto__\<close> the object found, and written on, is \<^verbatim>\<open>Object.prototype\<close>.
\<close>

lemma recordCapture_on_object_prototype:
  "recordCapture demo_manager ''__proto__'' False
         ''2024-05-01T10:01:00.000Z'' ''2024-05-01T10:01:00.001Z''
       = (Inr (),
          demo_manager
            \<lparr>inherited := [(''__proto__'',
                             [(''lastRun'', JStr ''2024-05-01T10:01:00.000Z''),
                              (''failureCount'', JNum 1)])],
             writes := 3\<rparr>)"
  by (simp add: demo_manager_value recordCapture_def lookup_def mutate_def
      object_prototype_functions_def saveProfiles_def set_field_def get_field_def js_or_def Let_def)

text \<open>
  \<^bold>\<open>C5.\<close> For a profile that exists: every \<^verbatim>\<open>recordCapture\<close> call sets \<^verbatim>\<open>lastRun\<close>; a
  success sets \<^verbatim>\<open>failureCount\<close> to 0 and \<^verbatim>\<open>lastSuccess\<close> to the call's clock reading; a
  failure leaves \<^verbatim>\<open>lastSuccess\<close> alone and adds one to a numeric \<^verbatim>\<open>failureCount\<close> (a
  missing one counts as 0). After any sequence of calls the last call decides
  \<^verbatim>\<open>lastRun\<close>, and \<^verbatim>\<open>lastSuccess\<close> when it succeeded; the counter is
  \<^const>\<open>count_after\<close> of the outcomes. Three failures and then a success leave
  \<^verbatim>\<open>failureCount = 0\<close> and \<^verbatim>\<open>lastSuccess\<close> at the last call's reading.
\<close>

theorem recordCapture_history:
  assumes "own_profile m pid = Some p"
  shows "(\<exists>p'. own_profile (snd (recordCapture m pid success t_run t_ok)) pid = Some p'
            \<and> get_field p' ''lastRun'' = Some (JStr t_run)
            \<and> (success \<longrightarrow> get_field p' ''failureCount'' = Some (JNum 0)
                          \<and> get_field p' ''lastSuccess'' = Some (JStr t_ok))
            \<and> (\<not> success \<longrightarrow> get_field p' ''lastSuccess'' = get_field p ''lastSuccess''
                  \<and> (get_field p ''failureCount'' = None
                         \<longrightarrow> get_field p' ''failureCount'' = Some (JNum 1))
                  \<and> (\<forall>n. get_field p ''failureCount'' = Some (JNum n)
                         \<longrightarrow> get_field p' ''failureCount'' = Some (JNum (n + 1)))))
         \<and> (\<exists>p'. own_profile (recordCaptures m pid (calls @ [(success, t_run, t_ok)])) pid = Some p'
            \<and> get_field p' ''lastRun'' = Some (JStr t_run)
            \<and> (success \<longrightarrow> get_field p' ''failureCount'' = Some (JNum 0)
                          \<and> get_field p' ''lastSuccess'' = Some (JStr t_ok)))
         \<and> (\<forall>n. get_field p ''failureCount'' = Some (JNum n) \<longrightarrow>
              (\<exists>p'. own_profile (recordCaptures m pid calls) pid = Some p'
                 \<and> get_field p' ''failureCount'' = Some (JNum (count_after n (map fst calls)))))
         \<and> (\<exists>p'. own_profile
                   (recordCaptures m pid
                      [(False, r1, s1), (False, r2, s2), (False, r3, s3), (True, t_run, t_ok)])
                   pid = Some p'
            \<and> get_field p' ''failureCount'' = Some (JNum 0)
            \<and> get_field p' ''lastSuccess'' = Some (JStr t_ok)
            \<and> get_field p' ''lastRun'' = Some (JStr t_run))"
proof (intro conjI allI impI)
  show "\<exists>p'. own_profile (snd (recordCapture m pid success t_run t_ok)) pid = Some p'
            \<and> get_field p' ''lastRun'' = Some (JStr t_run)
            \<and> (success \<longrightarrow> get_field p' ''failureCount'' = Some (JNum 0)
                          \<and> get_field p' ''lastSuccess'' = Some (JStr t_ok))
            \<and> (\<not> success \<longrightarrow> get_field p' ''lastSuccess'' = get_field p ''lastSuccess''
                  \<and> (get_field p ''failureCount'' = None
                         \<longrightarrow> get_field p' ''failureCount'' = Some (JNum 1))
                  \<and> (\<forall>n. get_field p ''failureCount'' = Some (JNum n)
                         \<longrightarrow> get_field p' ''failureCount'' = Some (JNum (n + 1))))"
    by (rule recordCapture_step [OF assms])
next
  show "\<exists>p'. own_profile (recordCaptures m pid (calls @ [(success, t_run, t_ok)])) pid = Some p'
            \<and> get_field p' ''lastRun'' = Some (JStr t_run)
            \<and> (success \<longrightarrow> get_field p' ''failureCount'' = Some (JNum 0)
                          \<and> get_field p' ''lastSuccess'' = Some (JStr t_ok))"
    by (rule recordCaptures_last [OF assms])
next
  fix n assume "get_field p ''failureCount'' = Some (JNum n)"
  from recordCaptures_count [OF assms this]
  show "\<exists>p'. own_profile (recordCaptures m pid calls) pid = Some p'
                 \<and> get_field p' ''failureCount'' = Some (JNum (count_after n (map fst calls)))" .
next
  from recordCaptures_last [OF assms,
      of "[(False, r1, s1), (False, r2, s2), (False, r3, s3)]" True t_run t_ok]
  show "\<exists>p'. own_profile
                   (recordCaptures m pid
                      [(False, r1, s1), (False, r2, s2), (False, r3, s3), (True, t_run, t_ok)])
                   pid = Some p'
            \<and> get_field p' ''failureCount'' = Some (JNum 0)
            \<and> get_field p' ''lastSuccess'' = Some (JStr t_ok)
            \<and> get_field p' ''lastRun'' = Some (JStr t_run)"
    by auto
qed

theorem recordCapture_history_witness:
  "own_profile demo_manager ''a1b2c3d4e5f60718''
     = Some (new_profile demo_config ''a1b2c3d4e5f60718'' ''2024-05-01T10:00:00.000Z'')
   \<and> (\<exists>p'. own_profile
               (recordCaptures demo_manager ''a1b2c3d4e5f60718''
                  [(False, ''2024-05-01T10:01:00.000Z'', ''2024-05-01T10:01:00.000Z''),
                   (False, ''2024-05-01T10:02:00.000Z'', ''2024-05-01T10:02:00.000Z''),
                   (False, ''2024-05-01T10:03:00.000Z'', ''2024-05-01T10:03:00.000Z''),
                   (True, ''2024-05-01T10:04:00.000Z'', ''2024-05-01T10:04:00.001Z'')])
               ''a1b2c3d4e5f60718'' = Some p'
          \<and> get_field p' ''failureCount'' = Some (JNum 0)
          \<and> get_field p' ''lastSuccess'' = Some (JStr ''2024-05-01T10:04:00.001Z'')
          \<and> get_field p' ''lastRun'' = Some (JStr ''2024-05-01T10:04:00.000Z''))"
proof -
  have h: "own_profile demo_manager ''a1b2c3d4e5f60718''
             = Some (new_profile demo_config ''a1b2c3d4e5f60718'' ''2024-05-01T10:00:00.000Z'')"
    by (simp add: demo_own_profile)
  from recordCapture_history [OF h] h show ?thesis by blast
qed

lemma updateProfile_known:
  assumes "own_profile m pid = Some p"
  shows "updateProfile m pid u now =
           ((if writable m then Inr (set_field ''modified'' (JStr now) (fold (copy_field u) allowedFields p))
             else Inl PersistFailed),
            snd (updateProfile m pid u now))
         \<and> own_profile (snd (updateProfile m pid u now)) q =
             (if q = pid then Some (set_field ''modified'' (JStr now) (fold (copy_field u) allowedFields p))
              else own_profile m q)"
  using assms
  by (simp add: updateProfile_def own_profile_def lookup_own mutate_own Let_def saveProfiles_def
      update_conv')

lemma modified_not_allowed: "''modified'' \<notin> set allowedFields"
  by (simp add: allowedFields_def)

text \<open>
  \<^bold>\<open>C9.\<close> For a profile that exists and any update object, \<^verbatim>\<open>updateProfile\<close> copies
  each of the nine allow-listed fields the update carries into the profile, whatever the
  value is, and leaves the allow-listed fields it does not carry as they were; it stamps
  \<^verbatim>\<open>modified\<close> and touches no other field. The HTTP handler answers 200 with that
  profile (500 when the file cannot be written): nothing on the path looks at the values,
  so a body \<^const>\<open>validateProfile\<close> rejects is stored as it is.
\<close>

theorem updateProfile_stores_verbatim:
  assumes "own_profile m pid = Some p"
  shows "\<exists>p'. updateProfile m pid u now =
                ((if writable m then Inr p' else Inl PersistFailed), snd (updateProfile m pid u now))
          \<and> handleUpdateProfile m pid u now =
                ((if writable m then Ok200 (Some p') else Error500 PersistFailed),
                 snd (updateProfile m pid u now))
          \<and> own_profile (snd (updateProfile m pid u now)) pid = Some p'
          \<and> (\<forall>f v. f \<in> set allowedFields \<longrightarrow> get_field u f = Some v \<longrightarrow> get_field p' f = Some v)
          \<and> (\<forall>f. f \<in> set allowedFields \<longrightarrow> get_field u f = None \<longrightarrow> get_field p' f = get_field p f)
          \<and> get_field p' ''modified'' = Some (JStr now)
          \<and> (\<forall>f. f \<notin> set allowedFields \<longrightarrow> f \<noteq> ''modified'' \<longrightarrow> get_field p' f = get_field p f)"
proof -
  let ?p' = "set_field ''modified'' (JStr now) (fold (copy_field u) allowedFields p)"
  note k = updateProfile_known [OF assms, of u now]
  have 1: "updateProfile m pid u now =
                ((if writable m then Inr ?p' else Inl PersistFailed), snd (updateProfile m pid u now))"
    using k by blast
  have 2: "own_profile (snd (updateProfile m pid u now)) pid = Some ?p'"
    using k by simp
  have 3: "handleUpdateProfile m pid u now =
                ((if writable m then Ok200 (Some ?p') else Error500 PersistFailed),
                 snd (updateProfile m pid u now))"
    unfolding handleUpdateProfile_def getProfile_def
    using lookup_own [OF assms [unfolded own_profile_def]] by (subst 1) simp
  have 4: "\<forall>f v. f \<in> set allowedFields \<longrightarrow> get_field u f = Some v \<longrightarrow> get_field ?p' f = Some v"
    using modified_not_allowed by (auto simp: get_set_field get_fold_copy_field)
  have 5: "\<forall>f. f \<in> set allowedFields \<longrightarrow> get_field u f = None \<longrightarrow> get_field ?p' f = get_field p f"
    using modified_not_allowed by (auto simp: get_set_field get_fold_copy_field)
  have 6: "get_field ?p' ''modified'' = Some (JStr now)"
    by (simp add: get_set_field)
  have 7: "\<forall>f. f \<notin> set allowedFields \<longrightarrow> f \<noteq> ''modified'' \<longrightarrow> get_field ?p' f = get_field p f"
    by (simp add: get_set_field get_fold_copy_field)
  from 1 2 3 4 5 6 7 show ?thesis by blast
qed

lemma validate_demo_update:
  "validateProfile demo_update =
     [''Width must be a number between 100 and 4000'',
      ''Theme must be either \"light\" or \"dark\"'',
      ''Output format must be one of: png, jpeg, bmp3, bmp'']"
proof -
  have g: "get_field demo_update ''width'' = Some (JNum 50)"
    "get_field demo_update ''theme'' = Some (JStr ''blue'')"
    "get_field demo_update ''outputFormat'' = Some (JStr ''gif'')"
    "get_field demo_update ''url'' = Some (JStr ''http://h/'')"
    "get_field demo_update ''name'' = Some (JStr ''Kitchen'')"
    "get_field demo_update ''height'' = None"
    "get_field demo_update ''refreshInterval'' = None"
    by (simp_all add: demo_update_def get_field_def)
  show ?thesis unfolding validateProfile_def g by (simp add: bad_dimension_def)
qed

theorem updateProfile_stores_verbatim_witness:
  "own_profile demo_manager ''a1b2c3d4e5f60718''
     = Some (new_profile demo_config ''a1b2c3d4e5f60718'' ''2024-05-01T10:00:00.000Z'')
   \<and> validateProfile demo_update =
     [''Width must be a number between 100 and 4000'',
      ''Theme must be either \"light\" or \"dark\"'',
      ''Output format must be one of: png, jpeg, bmp3, bmp'']
   \<and> (\<exists>p'. handleUpdateProfile demo_manager ''a1b2c3d4e5f60718'' demo_update
               ''2024-05-01T11:00:00.000Z''
             = (Ok200 (Some p'), snd (updateProfile demo_manager ''a1b2c3d4e5f60718'' demo_update
                                 ''2024-05-01T11:00:00.000Z''))
        \<and> get_field p' ''width'' = Some (JNum 50)
        \<and> get_field p' ''theme'' = Some (JStr ''blue'')
        \<and> get_field p' ''outputFormat'' = Some (JStr ''gif'')
        \<and> get_field p' ''failureCount'' = Some (JNum 0))"
proof -
  have h: "own_profile demo_manager ''a1b2c3d4e5f60718''
             = Some (new_profile demo_config ''a1b2c3d4e5f60718'' ''2024-05-01T10:00:00.000Z'')"
    by (simp add: demo_own_profile)
  have w: "writable demo_manager"
    by (simp add: demo_manager_def new_manager_def createProfile_def saveProfiles_def Let_def)
  have u: "get_field demo_update ''width'' = Some (JNum 50)"
    "get_field demo_update ''theme'' = Some (JStr ''blue'')"
    "get_field demo_update ''outputFormat'' = Some (JStr ''gif'')"
    by (simp_all add: demo_update_def get_field_def)
  have a: "''width'' \<in> set allowedFields" "''theme'' \<in> set allowedFields"
    "''outputFormat'' \<in> set allowedFields" "''failureCount'' \<notin> set allowedFields"
    by (simp_all add: allowedFields_def)
  have f: "get_field (new_profile demo_config ''a1b2c3d4e5f60718'' ''2024-05-01T10:00:00.000Z'')
             ''failureCount'' = Some (JNum 0)"
    by (simp add: new_profile_def get_field_def)
  from updateProfile_stores_verbatim [OF h, of demo_update "''2024-05-01T11:00:00.000Z''"]
  obtain p' where p': "handleUpdateProfile demo_manager ''a1b2c3d4e5f60718'' demo_update
               ''2024-05-01T11:00:00.000Z''
             = (Ok200 (Some p'), snd (updateProfile demo_manager ''a1b2c3d4e5f60718'' demo_update
                                 ''2024-05-01T11:00:00.000Z''))"
    and s: "\<forall>f v. f \<in> set allowedFields \<longrightarrow> get_field demo_update f = Some v \<longrightarrow> get_field p' f = Some v"
    and r: "\<forall>f. f \<notin> set allowedFields \<longrightarrow> f \<noteq> ''modified'' \<longrightarrow> get_field p' f = get_field (new_profile demo_config ''a1b2c3d4e5f60718'' ''2024-05-01T10:00:00.000Z'') f"
    using w by auto
  from s u a have "get_field p' ''width'' = Some (JNum 50)"
        "get_field p' ''theme'' = Some (JStr ''blue'')"
        "get_field p' ''outputFormat'' = Some (JStr ''gif'')" by blast+
  moreover from r a f have "get_field p' ''failureCount'' = Some (JNum 0)" by simp
  ultimately show ?thesis using h p' validate_demo_update by blast
qed

text \<open>
  \<^bold>\<open>C6.\<close> For a profile whose \<^verbatim>\<open>enabled\<close> is a boolean, whose \<^verbatim>\<open>refreshInterval\<close> is
  a number of seconds and whose \<^verbatim>\<open>lastRun\<close> is either unset (read as the epoch, 0) or a
  date string for the instant \<open>t_last\<close> (milliseconds): the profile is due exactly when
  it is enabled, the interval is positive and \<open>now \<ge> t_last + 1000 * refreshInterval\<close>;
  and \<^verbatim>\<open>getProfilesToCapture\<close> returns exactly the stored profiles that are due.
\<close>

theorem is_due_iff:
  assumes enabled: "get_field p ''enabled'' = Some (JBool e)"
      and interval: "get_field p ''refreshInterval'' = Some (JNum r)"
      and lastRun: "(get_field p ''lastRun'' \<in> {None, Some JNull} \<and> t_last = 0)
                    \<or> (\<exists>s. get_field p ''lastRun'' = Some (JStr s) \<and> s \<noteq> []
                            \<and> date_parse rt s = Some t_last)"
  shows "(is_due rt now p \<longleftrightarrow> e \<and> r > 0 \<and> now \<ge> t_last + r * 1000)
         \<and> (q \<in> set (getProfilesToCapture rt m now)
              \<longleftrightarrow> q \<in> snd ` set (profiles m) \<and> is_due rt now q)"
  using assms by (auto simp: is_due_def Let_def getProfilesToCapture_def)

theorem is_due_iff_witness:
  "is_due demo_runtime (1714557600000 + 90000) demo_ran
   \<and> \<not> is_due demo_runtime (1714557600000 + 30000) demo_ran
   \<and> is_due demo_runtime 1714557600000
        (new_profile demo_config ''a1b2c3d4e5f60718'' ''2024-05-01T09:00:00.000Z'')"
proof -
  let ?new = "new_profile demo_config ''a1b2c3d4e5f60718'' ''2024-05-01T09:00:00.000Z''"
  have c: "get_field demo_config ''enabled'' = None"
    "get_field demo_config ''refreshInterval'' = Some (JNum 60)"
    by (simp_all add: demo_config_def get_field_def)
  have n: "get_field ?new ''enabled'' = Some (JBool True)"
    "get_field ?new ''refreshInterval'' = Some (JNum 60)"
    "get_field ?new ''lastRun'' = Some JNull"
    by (simp_all add: new_profile_def get_field_def [of "_ # _"] c js_or_def)
  have r: "get_field demo_ran ''enabled'' = Some (JBool True)"
    "get_field demo_ran ''refreshInterval'' = Some (JNum 60)"
    "get_field demo_ran ''lastRun'' = Some (JStr ''2024-05-01T10:00:00.000Z'')"
    by (simp_all add: demo_ran_def get_set_field n)
  have d: "date_parse demo_runtime ''2024-05-01T10:00:00.000Z'' = Some 1714557600000"
    by (simp add: demo_runtime_def)
  have l: "(get_field demo_ran ''lastRun'' \<in> {None, Some JNull} \<and> (1714557600000::int) = 0)
           \<or> (\<exists>s. get_field demo_ran ''lastRun'' = Some (JStr s) \<and> s \<noteq> []
                   \<and> date_parse demo_runtime s = Some 1714557600000)"
    using r d by simp
  have l0: "(get_field ?new ''lastRun'' \<in> {None, Some JNull} \<and> (0::int) = 0)
           \<or> (\<exists>s. get_field ?new ''lastRun'' = Some (JStr s) \<and> s \<noteq> []
                   \<and> date_parse demo_runtime s = Some 0)"
    using n by simp
  from is_due_iff [OF r(1) r(2) l, of "1714557600000 + 90000"]
       is_due_iff [OF r(1) r(2) l, of "1714557600000 + 30000"]
       is_due_iff [OF n(1) n(2) l0, of 1714557600000]
  show ?thesis by simp
qed

section \<open>Properties of the screenshot service\<close>

subsection \<open>The traversal guard\<close>

lemma demo_join:
  "path_join ''/data/screenshots'' ''../screenshots-old/secret.png'' = ''/data/screenshots-old/secret.png''"
  by (simp add: path_join_def path_normalize_def Let_def)

lemma demo_screenshotPath: "screenshotPath demo_service = ''/data/screenshots''"
  by (simp add: demo_service_def new_service_def)

lemma demo_secret: "files demo_service ''/data/screenshots-old/secret.png'' = Some (File [1, 2, 3])"
  by (simp add: demo_service_def new_service_def demo_files_def)

lemma demo_journal: "journal demo_service = []"
  by (simp add: demo_service_def new_service_def)

text \<open>
  \<^bold>\<open>C1.\<close> The guard compares characters, not path segments. With the root
  \<^verbatim>\<open>/data/screenshots\<close>, the name \<^verbatim>\<open>../screenshots-old/secret.png\<close> resolves to
  \<^verbatim>\<open>/data/screenshots-old/secret.png\<close>, which starts with the root's characters and lies
  outside the root: \<^verbatim>\<open>getScreenshot\<close> reads that file and returns its bytes, and
  \<^verbatim>\<open>deleteScreenshot\<close> unlinks it and returns \<^verbatim>\<open>true\<close>.
\<close>

theorem traversal_guard_escapes:
  "getScreenshot demo_service ''../screenshots-old/secret.png''
     = (Inr (Some [1, 2, 3]),
        demo_service\<lparr>journal := [FsExists ''/data/screenshots-old/secret.png'',
                                 FsRead ''/data/screenshots-old/secret.png'']\<rparr>)
   \<and> fst (deleteScreenshot demo_service ''../screenshots-old/secret.png'') = True
   \<and> journal (snd (deleteScreenshot demo_service ''../screenshots-old/secret.png''))
       = [FsExists ''/data/screenshots-old/secret.png'', FsUnlink ''/data/screenshots-old/secret.png'']
   \<and> files (snd (deleteScreenshot demo_service ''../screenshots-old/secret.png''))
         ''/data/screenshots-old/secret.png'' = None
   \<and> \<not> inside_root (screenshotPath demo_service) ''/data/screenshots-old/secret.png''"
  by (simp add: getScreenshot_def deleteScreenshot_def demo_screenshotPath demo_join demo_secret
      demo_journal log_event_def inside_root_def Let_def)

text \<open>
  What the guard does ensure: every path the two functions touch has the characters of
  the root as a prefix.
\<close>

lemma getScreenshot_touches:
  assumes "getScreenshot sv filename = (r, sv')"
  shows "\<exists>new. journal sv' = journal sv @ new
           \<and> (\<forall>e \<in> set new. \<forall>p. touches e = Some p \<longrightarrow> prefix (screenshotPath sv) p)"
  using assms
  by (auto simp: getScreenshot_def Let_def log_event_def touches_def
      split: if_splits option.splits fs_node.splits)

lemma deleteScreenshot_touches:
  assumes "deleteScreenshot sv filename = (r, sv')"
  shows "\<exists>new. journal sv' = journal sv @ new
           \<and> (\<forall>e \<in> set new. \<forall>p. touches e = Some p \<longrightarrow> prefix (screenshotPath sv) p)"
  using assms
  by (auto simp: deleteScreenshot_def Let_def log_event_def touches_def
      split: if_splits option.splits fs_node.splits)

lemma traversal_above_root_blocked:
  "getScreenshot demo_service ''../../etc/passwd'' = (Inr None, demo_service)"
  by (simp add: getScreenshot_def demo_screenshotPath path_join_def path_normalize_def Let_def)

subsection \<open>Retention\<close>







lemma cleanup_stat_fails:
  assumes "\<not> list_all stat_ok (filter (\<lambda>e. prefix ''screenshot-'' (entry_name e)) entries)"
  shows "cleanupOldScreenshots (Some entries) now a c = (0, Some entries)"
  using assms by (simp add: cleanupOldScreenshots_def)




text \<open>
  When \<^verbatim>\<open>statSync\<close> throws on one listed name, no stored image is unlinked, whatever the
  parameters: next to a link whose target is gone, the sweep with \<^verbatim>\<open>(0, 0)\<close> leaves the
  image where it is and answers 0.
\<close>

lemma sweep_gives_up_on_stat_failure:
  "cleanupOldScreenshots (Some broken_link_directory) 10000 0 0 = (0, Some broken_link_directory)"
  by (rule cleanup_stat_fails) (simp add: broken_link_directory_def)









subsection \<open>The capture pipeline\<close>

lemma quiet_refl: "quiet sv sv"
  by (simp add: quiet_def)

lemma quiet_trans: "quiet a b \<Longrightarrow> quiet b c \<Longrightarrow> quiet a c"
  by (auto simp: quiet_def)

lemma quiet_log: "e \<noteq> Acquire \<Longrightarrow> e \<noteq> Release \<Longrightarrow> quiet sv (log_event e sv)"
  by (simp add: quiet_def log_event_def)

lemma quiet_succeed: "quiet_action (succeed a)"
  by (simp add: quiet_action_def succeed_def quiet_refl)

lemma quiet_succeed_fun: "quiet_action (\<lambda>sv. succeed (g sv) sv)"
  by (simp add: quiet_action_def succeed_def quiet_refl)

lemma quiet_await: "quiet_action (await env s)"
  by (simp add: quiet_action_def await_def quiet_log split: option.splits)

lemma quiet_convert: "quiet_action (convert env fmt buf)"
  by (simp add: quiet_action_def convert_def quiet_log quiet_refl split: option.splits sum.splits)

lemma quiet_writeFileSync: "quiet_action (\<lambda>sv. writeFileSync env (p sv) buf sv)"
  by (simp add: quiet_action_def writeFileSync_def quiet_def log_event_def split: option.splits)

lemma quiet_if: "quiet_action a \<Longrightarrow> quiet_action b \<Longrightarrow> quiet_action (if c then a else b)"
  by simp

lemma quiet_and_then:
  assumes "quiet_action m" and "\<And>a. quiet_action (f a)"
  shows "quiet_action (and_then m f)"
  unfolding quiet_action_def
proof
  fix sv
  obtain r sv1 where m: "m sv = (r, sv1)" by (cases "m sv")
  have q: "quiet sv sv1" using assms(1) m by (auto simp: quiet_action_def dest: spec [of _ sv])
  show "quiet sv (snd (and_then m f sv))"
  proof (cases r)
    case (Inl msg)
    with m q show ?thesis by (simp add: and_then_def)
  next
    case (Inr a)
    have "quiet sv1 (snd (f a sv1))" using assms(2) [of a] by (simp add: quiet_action_def)
    with q have "quiet sv (snd (f a sv1))" by (rule quiet_trans)
    with m Inr show ?thesis by (simp add: and_then_def)
  qed
qed

lemma quiet_try_block: "quiet_action (try_block env req)"
  unfolding try_block_def
  by (intro quiet_and_then quiet_await quiet_succeed quiet_succeed_fun quiet_convert
      quiet_writeFileSync quiet_if)

lemma and_then_InrE:
  assumes "and_then m f sv = (Inr b, sv2)"
  obtains a sv1 where "m sv = (Inr a, sv1)" and "f a sv1 = (Inr b, sv2)"
  using assms by (auto simp: and_then_def split: prod.splits sum.splits)

lemma await_Inr: "await env s sv = (Inr u, sv1) \<Longrightarrow> fault env s = None \<and> sv1 = log_event (Did s) sv"
  by (auto simp: await_def split: option.splits)

lemma succeed_Inr: "succeed a sv = (Inr b, sv1) \<Longrightarrow> b = a \<and> sv1 = sv"
  by (simp add: succeed_def)

lemma convert_Inr:
  "convert env fmt buf sv = (Inr final, sv1) \<Longrightarrow>
     screenshotPath sv1 = screenshotPath sv
     \<and> journal sv1 = journal sv
          @ (if fmt = ''bmp3'' \<or> fmt = ''bmp'' then [Did ConvertBMP3]
             else if fmt = ''jpeg'' then [Did ConvertJPEG] else [])"
  by (auto simp: convert_def log_event_def split: if_splits sum.splits option.splits)

lemma writeFileSync_Inr:
  "writeFileSync env path buf sv = (Inr u, sv1) \<Longrightarrow>
     screenshotPath sv1 = screenshotPath sv \<and> journal sv1 = journal sv @ [FsWrite path]"
  by (auto simp: writeFileSync_def log_event_def split: option.splits)

lemma optional_await_Inr:
  "(if c then await env s else succeed ()) sv = (Inr u, sv1) \<Longrightarrow>
     screenshotPath sv1 = screenshotPath sv
     \<and> journal sv1 = journal sv @ (if c then [Did s] else [])"
  by (auto simp: succeed_def log_event_def dest!: await_Inr split: if_splits)

lemma await_Inr_journal:
  "await env s sv = (Inr u, sv1) \<Longrightarrow>
     screenshotPath sv1 = screenshotPath sv \<and> journal sv1 = journal sv @ [Did s]"
  by (auto simp: log_event_def dest!: await_Inr)

lemma try_block_success:
  assumes "try_block env req sv = (Inr res, sv1)"
  shows "journal sv1 = journal sv
           @ success_events req
               (path_join (screenshotPath sv)
                  (screenshot_filename (stamp env) (random_hex env) (request_format req)))"
  using assms unfolding try_block_def
  apply (elim and_then_InrE)
  apply (drule await_Inr_journal optional_await_Inr convert_Inr writeFileSync_Inr succeed_Inr)+
  apply (simp add: success_events_def)
  done

lemma journal_acquire: "journal (acquire sv) = journal sv @ [Acquire]"
  by (simp add: acquire_def log_event_def)

lemma journal_release: "journal (release sv) = journal sv @ [Release]"
  by (simp add: release_def log_event_def)

lemma screenshotPath_acquire: "screenshotPath (acquire sv) = screenshotPath sv"
  by (simp add: acquire_def log_event_def)

lemma success_events_end:
  "\<exists>pre. success_events req path = pre @ [Did ClosePage, Did CloseContext]"
  unfolding success_events_def
  by (metis append.assoc append_Cons append_Nil)

lemma success_events_quiet:
  "Acquire \<notin> set (success_events req path) \<and> Release \<notin> set (success_events req path)"
  by (simp add: success_events_def)

lemma in_flight_append: "in_flight (ps @ [p]) = in_flight ps + (if p = Running then 1 else 0)"
  by (simp add: in_flight_def)

lemma in_flight_update:
  "i < length ps \<Longrightarrow>
     in_flight (ps[i := p]) + (if ps ! i = Running then 1 else 0)
       = in_flight ps + (if p = Running then 1 else 0)"
proof (induction ps arbitrary: i)
  case Nil
  then show ?case by simp
next
  case (Cons q ps)
  show ?case
  proof (cases i)
    case 0
    then show ?thesis by (simp add: in_flight_def)
  next
    case (Suc k)
    with Cons.prems have "k < length ps" by simp
    from Cons.IH [OF this] Suc show ?thesis by (auto simp: in_flight_def)
  qed
qed

lemma try_block_counters:
  assumes "try_block env req sv = (r, sv1)"
  shows "activeCaptures sv1 = activeCaptures sv \<and> maxConcurrent sv1 = maxConcurrent sv"
proof -
  have "quiet sv (snd (try_block env req sv))"
    using quiet_try_block [of env req] by (simp add: quiet_action_def)
  with assms show ?thesis by (simp add: quiet_def)
qed

lemma try_block_journal:
  assumes "try_block env req sv = (r, sv1)"
  obtains body where "activeCaptures sv1 = activeCaptures sv"
    and "journal sv1 = journal sv @ body"
    and "Acquire \<notin> set body" and "Release \<notin> set body"
    and "(\<exists>res. r = Inr res) \<longrightarrow> (\<exists>pre. body = pre @ [Did ClosePage, Did CloseContext])"
proof -
  have "quiet sv (snd (try_block env req sv))"
    using quiet_try_block [of env req] by (simp add: quiet_action_def)
  then have "quiet sv sv1"
    using assms by simp
  then obtain body where c: "activeCaptures sv1 = activeCaptures sv"
    and j: "journal sv1 = journal sv @ body"
    and b: "Acquire \<notin> set body" "Release \<notin> set body"
    unfolding quiet_def by auto
  have "\<exists>pre. body = pre @ [Did ClosePage, Did CloseContext]" if "r = Inr res" for res
  proof -
    from try_block_success [OF assms [unfolded that]] j
    have "body = success_events req
               (path_join (screenshotPath sv)
                  (screenshot_filename (stamp env) (random_hex env) (request_format req)))"
      by simp
    then show ?thesis using success_events_end by simp
  qed
  then have "(\<exists>res. r = Inr res) \<longrightarrow> (\<exists>pre. body = pre @ [Did ClosePage, Did CloseContext])"
    by (intro impI) (erule exE)
  with c j b show ?thesis by (rule that)
qed

text \<open>The moves by which a call stops running, starts running, and stays finished.\<close>

lemma call_leaves_running:
  assumes "moves (s, ps) (s1, ps1)" and "i < length ps" and "ps ! i = Running" and "ps1 ! i \<noteq> Running"
  shows "ps1 = ps[i := Finished] \<and> activeCaptures s1 = activeCaptures s - 1
         \<and> (\<exists>env req r s2 body. try_block env req s = (r, s2) \<and> s1 = release s2
               \<and> journal s1 = journal s @ body @ [Release]
               \<and> Acquire \<notin> set body \<and> Release \<notin> set body
               \<and> ((\<exists>res. r = Inr res) \<longrightarrow> (\<exists>pre. body = pre @ [Did ClosePage, Did CloseContext])))"
  using assms(1)
proof (cases rule: moves.cases)
  case call_rejected
  with assms show ?thesis by (simp add: nth_append)
next
  case call_admitted
  with assms show ?thesis by (simp add: nth_append)
next
  case call_queued
  with assms show ?thesis by (simp add: nth_append)
next
  case (poll_admitted k)
  with assms show ?thesis by (cases "k = i") simp_all
next
  case (poll_again k)
  with assms show ?thesis by simp
next
  case (body_finished k env req r s2)
  have k: "k = i"
  proof (rule ccontr)
    assume "k \<noteq> i"
    with body_finished assms show False by simp
  qed
  from body_finished(5)
  obtain body where c: "activeCaptures s2 = activeCaptures s"
    and j: "journal s2 = journal s @ body"
    and b: "Acquire \<notin> set body" "Release \<notin> set body"
    and ee: "(\<exists>res. r = Inr res) \<longrightarrow> (\<exists>pre. body = pre @ [Did ClosePage, Did CloseContext])"
    by (rule try_block_journal)
  have p: "ps1 = ps[i := Finished]"
    using body_finished(2) k by simp
  have a: "activeCaptures s1 = activeCaptures s - 1"
    using c body_finished(1) by (simp add: release_def log_event_def)
  have jr: "journal s1 = journal s @ body @ [Release]"
    using j body_finished(1) by (simp add: journal_release)
  have "try_block env req s = (r, s2) \<and> s1 = release s2
               \<and> journal s1 = journal s @ body @ [Release]
               \<and> Acquire \<notin> set body \<and> Release \<notin> set body
               \<and> ((\<exists>res. r = Inr res) \<longrightarrow> (\<exists>pre. body = pre @ [Did ClosePage, Did CloseContext]))"
    using body_finished(5) body_finished(1) jr b ee by (intro conjI)
  then have "\<exists>env req r s2 body. try_block env req s = (r, s2) \<and> s1 = release s2
               \<and> journal s1 = journal s @ body @ [Release]
               \<and> Acquire \<notin> set body \<and> Release \<notin> set body
               \<and> ((\<exists>res. r = Inr res) \<longrightarrow> (\<exists>pre. body = pre @ [Did ClosePage, Did CloseContext]))"
    by (intro exI)
  with p a show ?thesis by (intro conjI)
next
  case (browser_changed b)
  with assms show ?thesis by simp
qed

lemma call_enters_running:
  assumes "moves (s, ps) (s1, ps1)" and "i < length ps1" and "ps1 ! i = Running"
    and "\<not> (i < length ps \<and> ps ! i = Running)"
  shows "slot_available s \<and> s1 = acquire s \<and> activeCaptures s1 = activeCaptures s + 1
         \<and> journal s1 = journal s @ [Acquire]"
  using assms(1)
proof (cases rule: moves.cases)
  case call_rejected
  with assms show ?thesis by (auto simp: nth_append split: if_splits)
next
  case call_admitted
  then show ?thesis by (simp add: journal_acquire) (simp add: acquire_def log_event_def)
next
  case call_queued
  with assms show ?thesis by (auto simp: nth_append split: if_splits)
next
  case (poll_admitted k)
  then show ?thesis by (simp add: journal_acquire) (simp add: acquire_def log_event_def)
next
  case (poll_again k)
  with assms show ?thesis by simp
next
  case (body_finished k env req r s2)
  with assms show ?thesis by (cases "k = i") simp_all
next
  case (browser_changed b)
  with assms show ?thesis by simp
qed

lemma finished_stays:
  assumes "moves (s, ps) (s1, ps1)" and "i < length ps" and "ps ! i = Finished"
  shows "ps1 ! i = Finished"
  using assms(1)
proof (cases rule: moves.cases)
  case (poll_admitted k)
  with assms show ?thesis by (cases "k = i") simp_all
next
  case (body_finished k env req r s2)
  with assms show ?thesis by (cases "k = i") simp_all
qed (use assms in \<open>simp_all add: nth_append\<close>)

lemma moves_counter:
  assumes "moves (s, ps) (s1, ps1)"
  shows "activeCaptures s1 - activeCaptures s = int (in_flight ps1) - int (in_flight ps)"
  using assms
proof (cases rule: moves.cases)
  case (poll_admitted k)
  from in_flight_update [OF poll_admitted(3), of Running] poll_admitted(4)
  have "in_flight (ps[k := Running]) = in_flight ps + 1" by simp
  with poll_admitted show ?thesis by (simp add: acquire_def log_event_def)
next
  case (body_finished k env req r s2)
  from in_flight_update [OF body_finished(3), of Finished] body_finished(4)
  have "in_flight (ps[k := Finished]) + 1 = in_flight ps" by simp
  with body_finished try_block_counters [OF body_finished(5)] show ?thesis
    by (simp add: release_def log_event_def)
qed (simp_all add: in_flight_append acquire_def log_event_def)

text \<open>
  \<^bold>\<open>C3.\<close> A call that has taken a slot gives it back exactly once, as its last action,
  whatever throws on the way, and on success only after the page and the context were
  closed.

  \<^item> Run on its own from a state with a free slot, the call returns with the counter at
    its value before the call; its journal is \<^const>\<open>Acquire\<close>, then the calls of the
    \<^verbatim>\<open>try\<close> block, then \<^const>\<open>Release\<close>, and when the capture succeeded the \<^verbatim>\<open>try\<close>
    block ended with the closing of the page and of the context.
  \<^item> Among interleaved calls, a call stops running only by the move that ends its
    \<^verbatim>\<open>try\<close> block: the counter goes down by one and \<^const>\<open>Release\<close> is the last event
    of the move, after the closing of the page and of the context when the \<^verbatim>\<open>try\<close>
    block returned a result.
  \<^item> A call starts running, on entry or from the polling loop, only by a move that finds
    a slot free and takes it: the counter goes up by one.
  \<^item> A finished call stays finished, and every move changes the counter by exactly the
    change in the number of running calls: nothing else takes or gives back a slot.
\<close>

theorem capture_releases_slot:
  "(browser sv \<longrightarrow> slot_available sv \<longrightarrow>
      (\<exists>res sv1 body. captureScreenshot env req sv = Some (res, sv1)
          \<and> activeCaptures sv1 = activeCaptures sv
          \<and> journal sv1 = journal sv @ [Acquire] @ body @ [Release]
          \<and> Acquire \<notin> set body \<and> Release \<notin> set body
          \<and> (is_success res \<longrightarrow> (\<exists>pre. body = pre @ [Did ClosePage, Did CloseContext]))))
   \<and> (moves (s, ps) (s1, ps1) \<longrightarrow> i < length ps \<longrightarrow> ps ! i = Running \<longrightarrow> ps1 ! i \<noteq> Running \<longrightarrow>
        ps1 = ps[i := Finished] \<and> activeCaptures s1 = activeCaptures s - 1
        \<and> (\<exists>env' req' r s2 body. try_block env' req' s = (r, s2) \<and> s1 = release s2
              \<and> journal s1 = journal s @ body @ [Release]
              \<and> Acquire \<notin> set body \<and> Release \<notin> set body
              \<and> ((\<exists>res. r = Inr res) \<longrightarrow> (\<exists>pre. body = pre @ [Did ClosePage, Did CloseContext]))))
   \<and> (moves (s, ps) (s1, ps1) \<longrightarrow> i < length ps1 \<longrightarrow> ps1 ! i = Running
        \<longrightarrow> \<not> (i < length ps \<and> ps ! i = Running) \<longrightarrow>
        slot_available s \<and> s1 = acquire s \<and> activeCaptures s1 = activeCaptures s + 1
        \<and> journal s1 = journal s @ [Acquire])
   \<and> (moves (s, ps) (s1, ps1) \<longrightarrow> i < length ps \<longrightarrow> ps ! i = Finished \<longrightarrow> ps1 ! i = Finished)
   \<and> (moves (s, ps) (s1, ps1) \<longrightarrow>
        activeCaptures s1 - activeCaptures s = int (in_flight ps1) - int (in_flight ps))"
proof (intro conjI impI)
  assume b: "browser sv" and a: "slot_available sv"
  obtain r sv1 where t: "try_block env req (acquire sv) = (r, sv1)"
    by (cases "try_block env req (acquire sv)")
  from t obtain body where c: "activeCaptures sv1 = activeCaptures (acquire sv)"
    and j: "journal sv1 = journal (acquire sv) @ body"
    and q: "Acquire \<notin> set body" "Release \<notin> set body"
    and e: "(\<exists>res. r = Inr res) \<longrightarrow> (\<exists>pre. body = pre @ [Did ClosePage, Did CloseContext])"
    by (rule try_block_journal)
  have restored: "activeCaptures (release sv1) = activeCaptures sv"
    using c by (simp add: release_def acquire_def log_event_def)
  have jr: "journal (release sv1) = journal sv @ [Acquire] @ body @ [Release]"
    using j by (simp add: journal_release journal_acquire)
  show "\<exists>res sv1 body. captureScreenshot env req sv = Some (res, sv1)
          \<and> activeCaptures sv1 = activeCaptures sv
          \<and> journal sv1 = journal sv @ [Acquire] @ body @ [Release]
          \<and> Acquire \<notin> set body \<and> Release \<notin> set body
          \<and> (is_success res \<longrightarrow> (\<exists>pre. body = pre @ [Did ClosePage, Did CloseContext]))"
  proof (cases r)
    case (Inl msg)
    then have "captureScreenshot env req sv = Some (Failure msg, release sv1)"
      using a b t by (simp add: captureScreenshot_def)
    with restored jr q show ?thesis by auto
  next
    case (Inr res)
    then have cs: "captureScreenshot env req sv = Some (res, release sv1)"
      using a b t by (simp add: captureScreenshot_def)
    from e Inr have "\<exists>pre. body = pre @ [Did ClosePage, Did CloseContext]"
      by simp
    with cs restored jr q show ?thesis by auto
  qed
next
  assume "moves (s, ps) (s1, ps1)" and "i < length ps" and "ps ! i = Running"
    and "ps1 ! i \<noteq> Running"
  then have l: "ps1 = ps[i := Finished] \<and> activeCaptures s1 = activeCaptures s - 1
        \<and> (\<exists>env' req' r s2 body. try_block env' req' s = (r, s2) \<and> s1 = release s2
              \<and> journal s1 = journal s @ body @ [Release]
              \<and> Acquire \<notin> set body \<and> Release \<notin> set body
              \<and> ((\<exists>res. r = Inr res) \<longrightarrow> (\<exists>pre. body = pre @ [Did ClosePage, Did CloseContext])))"
    by (rule call_leaves_running)
  show "ps1 = ps[i := Finished]"
    by (rule l [THEN conjunct1])
  show "activeCaptures s1 = activeCaptures s - 1"
    by (rule l [THEN conjunct2, THEN conjunct1])
  show "\<exists>env' req' r s2 body. try_block env' req' s = (r, s2) \<and> s1 = release s2
              \<and> journal s1 = journal s @ body @ [Release]
              \<and> Acquire \<notin> set body \<and> Release \<notin> set body
              \<and> ((\<exists>res. r = Inr res) \<longrightarrow> (\<exists>pre. body = pre @ [Did ClosePage, Did CloseContext]))"
    by (rule l [THEN conjunct2, THEN conjunct2])
next
  assume m: "moves (s, ps) (s1, ps1)" and "i < length ps1" and "ps1 ! i = Running"
    and "\<not> (i < length ps \<and> ps ! i = Running)"
  then have e: "slot_available s \<and> s1 = acquire s \<and> activeCaptures s1 = activeCaptures s + 1
        \<and> journal s1 = journal s @ [Acquire]"
    by (rule call_enters_running)
  show "slot_available s"
    by (rule e [THEN conjunct1])
  show "s1 = acquire s"
    by (rule e [THEN conjunct2, THEN conjunct1])
  show "activeCaptures s1 = activeCaptures s + 1"
    by (rule e [THEN conjunct2, THEN conjunct2, THEN conjunct1])
  show "journal s1 = journal s @ [Acquire]"
    by (rule e [THEN conjunct2, THEN conjunct2, THEN conjunct2])
next
  assume "moves (s, ps) (s1, ps1)" and "i < length ps" and "ps ! i = Finished"
  then show "ps1 ! i = Finished" by (rule finished_stays)
next
  assume "moves (s, ps) (s1, ps1)"
  then show "activeCaptures s1 - activeCaptures s = int (in_flight ps1) - int (in_flight ps)"
    by (rule moves_counter)
qed

lemma try_block_unknown_format:
  assumes "\<forall>s. fault env s = None" and "outputFormat req = Some fmt"
    and "fmt \<notin> {''jpeg'', ''bmp3'', ''bmp''}"
  shows "fst (try_block env req sv) =
           Inr (Success
                  (''screenshot-''
                     @ map (\<lambda>c. if c = CHR '':'' \<or> c = CHR ''.'' then CHR ''-'' else c) (stamp env)
                     @ ''-'' @ random_hex env @ ''.'' @ fmt)
                  (path_join (screenshotPath sv)
                     (''screenshot-''
                        @ map (\<lambda>c. if c = CHR '':'' \<or> c = CHR ''.'' then CHR ''-'' else c) (stamp env)
                        @ ''-'' @ random_hex env @ ''.'' @ fmt))
                  (length (raster env))
                  (case width req of None \<Rightarrow> 800 | Some w \<Rightarrow> w)
                  (case height req of None \<Rightarrow> 480 | Some h \<Rightarrow> h)
                  fmt (stamp_done env))
         \<and> files (snd (try_block env req sv))
              (path_join (screenshotPath sv)
                 (''screenshot-''
                    @ map (\<lambda>c. if c = CHR '':'' \<or> c = CHR ''.'' then CHR ''-'' else c) (stamp env)
                    @ ''-'' @ random_hex env @ ''.'' @ fmt))
             = Some (File (raster env))"
  using assms
  by (simp add: try_block_def and_then_def await_def succeed_def convert_def writeFileSync_def
      log_event_def request_format_def screenshot_filename_def)

lemma demo_browser: "browser demo_service"
  by (simp add: demo_service_def new_service_def)

lemma demo_slot: "slot_available demo_service"
  by (simp add: slot_available_def demo_service_def new_service_def)

lemma demo_no_fault: "\<forall>s. fault demo_env s = None"
  by (simp add: demo_env_def)

lemma demo_counter: "activeCaptures demo_service = 0"
  by (simp add: demo_service_def new_service_def)

lemma demo_png_path:
  "path_join ''/data/screenshots'' ''screenshot-2024-05-01T10-00-00-000Z-1a2b3c4d.png''
     = ''/data/screenshots/screenshot-2024-05-01T10-00-00-000Z-1a2b3c4d.png''"
  by (simp add: path_join_def path_normalize_def Let_def)

lemma demo_gif_path:
  "path_join ''/data/screenshots'' ''screenshot-2024-05-01T10-00-00-000Z-1a2b3c4d.gif''
     = ''/data/screenshots/screenshot-2024-05-01T10-00-00-000Z-1a2b3c4d.gif''"
  by (simp add: path_join_def path_normalize_def Let_def)

lemma demo_png_try:
  "try_block demo_env demo_png_request (acquire demo_service) = (r, sv1) \<Longrightarrow>
     r = Inr (Success ''screenshot-2024-05-01T10-00-00-000Z-1a2b3c4d.png''
               ''/data/screenshots/screenshot-2024-05-01T10-00-00-000Z-1a2b3c4d.png''
               4 1024 600 ''png'' ''2024-05-01T10:00:00.250Z'')
     \<and> journal sv1 =
       [Acquire, Did CreateContext, Did NewPage, Did SetViewportSize, Did EmulateMedia,
        Did SetExtraHTTPHeaders, Did Goto, Did WaitForTimeout, Did Screenshot,
        FsWrite ''/data/screenshots/screenshot-2024-05-01T10-00-00-000Z-1a2b3c4d.png'',
        Did ClosePage, Did CloseContext]"
  by (auto simp: try_block_def and_then_def await_def succeed_def convert_def writeFileSync_def
      log_event_def request_format_def screenshot_filename_def demo_env_def demo_png_request_def
      acquire_def demo_screenshotPath demo_journal demo_png_path)

text \<open>
  The specification has the slot given back first and the context closed after. In a
  capture where nothing throws it is the other way round.
\<close>

theorem capture_closes_context_before_release:
  "is_success (fst (the (captureScreenshot demo_env demo_png_request demo_service)))
   \<and> journal (snd (the (captureScreenshot demo_env demo_png_request demo_service))) =
       [Acquire, Did CreateContext, Did NewPage, Did SetViewportSize, Did EmulateMedia,
        Did SetExtraHTTPHeaders, Did Goto, Did WaitForTimeout, Did Screenshot,
        FsWrite ''/data/screenshots/screenshot-2024-05-01T10-00-00-000Z-1a2b3c4d.png'',
        Did ClosePage, Did CloseContext, Release]
   \<and> \<not> released_then_closed
         (journal (snd (the (captureScreenshot demo_env demo_png_request demo_service))))"
proof -
  obtain r sv1 where t: "try_block demo_env demo_png_request (acquire demo_service) = (r, sv1)"
    by (cases "try_block demo_env demo_png_request (acquire demo_service)")
  note d = demo_png_try [OF t]
  have "captureScreenshot demo_env demo_png_request demo_service
          = Some (Success ''screenshot-2024-05-01T10-00-00-000Z-1a2b3c4d.png''
               ''/data/screenshots/screenshot-2024-05-01T10-00-00-000Z-1a2b3c4d.png''
               4 1024 600 ''png'' ''2024-05-01T10:00:00.250Z'', release sv1)"
    using t d demo_browser demo_slot by (simp add: captureScreenshot_def)
  then show ?thesis
    using d by (simp add: journal_release released_then_closed_def)
qed

theorem capture_releases_slot_witness:
  "browser demo_service \<and> slot_available demo_service
   \<and> (\<exists>res sv1 pre. captureScreenshot demo_env demo_png_request demo_service = Some (res, sv1)
         \<and> is_success res
         \<and> activeCaptures sv1 = 0
         \<and> journal sv1 = [Acquire] @ pre @ [Did ClosePage, Did CloseContext] @ [Release])
   \<and> moves (demo_service, [Finished, Waiting]) (acquire demo_service, [Finished, Running])
   \<and> activeCaptures (acquire demo_service) = 1
   \<and> journal (acquire demo_service) = [Acquire]
   \<and> [Finished, Running] ! 0 = Finished
   \<and> (\<exists>s1. moves (acquire demo_service, [Finished, Running]) (s1, [Finished, Finished])
         \<and> activeCaptures s1 = 0
         \<and> (\<exists>pre. journal s1 = [Acquire] @ pre @ [Did ClosePage, Did CloseContext] @ [Release])
         \<and> activeCaptures s1 - activeCaptures (acquire demo_service)
             = int (in_flight [Finished, Finished]) - int (in_flight [Finished, Running]))"
proof -
  obtain r sv2 where t: "try_block demo_env demo_png_request (acquire demo_service) = (r, sv2)"
    by (cases "try_block demo_env demo_png_request (acquire demo_service)")
  note d = demo_png_try [OF t]
  have ok: "\<exists>res. r = Inr res"
    using d by simp
  from capture_releases_slot [where sv = demo_service and env = demo_env and req = demo_png_request,
      THEN conjunct1, rule_format, OF demo_browser demo_slot]
  obtain res sv1 body where c: "captureScreenshot demo_env demo_png_request demo_service = Some (res, sv1)"
    and a: "activeCaptures sv1 = activeCaptures demo_service"
    and j: "journal sv1 = journal demo_service @ [Acquire] @ body @ [Release]"
    and e: "is_success res \<longrightarrow> (\<exists>pre. body = pre @ [Did ClosePage, Did CloseContext])"
    by blast
  have "captureScreenshot demo_env demo_png_request demo_service
          = Some (Success ''screenshot-2024-05-01T10-00-00-000Z-1a2b3c4d.png''
               ''/data/screenshots/screenshot-2024-05-01T10-00-00-000Z-1a2b3c4d.png''
               4 1024 600 ''png'' ''2024-05-01T10:00:00.250Z'', release sv2)"
    using t d demo_browser demo_slot by (simp add: captureScreenshot_def)
  with c have s: "is_success res" by auto
  with e obtain pre where "body = pre @ [Did ClosePage, Did CloseContext]" by blast
  with c s a j have alone:
    "\<exists>res sv1 pre. captureScreenshot demo_env demo_png_request demo_service = Some (res, sv1)
         \<and> is_success res
         \<and> activeCaptures sv1 = 0
         \<and> journal sv1 = [Acquire] @ pre @ [Did ClosePage, Did CloseContext] @ [Release]"
    by (auto simp: demo_counter demo_journal)
  have m1: "moves (demo_service, [Finished, Waiting]) (acquire demo_service, [Finished, Running])"
    using moves.poll_admitted [of 1 "[Finished, Waiting]" demo_service] demo_slot by simp
  have in1: "activeCaptures (acquire demo_service) = activeCaptures demo_service + 1
             \<and> journal (acquire demo_service) = journal demo_service @ [Acquire]"
    using capture_releases_slot [where s = demo_service and ps = "[Finished, Waiting]"
      and ?s1.0 = "acquire demo_service" and ?ps1.0 = "[Finished, Running]" and i = 1,
      THEN conjunct2, THEN conjunct2, THEN conjunct1, rule_format, OF m1]
    by simp
  have f1: "[Finished, Running] ! 0 = Finished"
    using capture_releases_slot [where s = demo_service and ps = "[Finished, Waiting]"
      and ?s1.0 = "acquire demo_service" and ?ps1.0 = "[Finished, Running]" and i = 0,
      THEN conjunct2, THEN conjunct2, THEN conjunct2, THEN conjunct1, rule_format, OF m1]
    by simp
  have m2: "moves (acquire demo_service, [Finished, Running]) (release sv2, [Finished, Finished])"
    using moves.body_finished [of 1 "[Finished, Running]", OF _ _ t] by simp
  note t2 = capture_releases_slot [where s = "acquire demo_service" and ps = "[Finished, Running]"
      and ?s1.0 = "release sv2" and ?ps1.0 = "[Finished, Finished]" and i = 1]
  have out: "activeCaptures (release sv2) = activeCaptures (acquire demo_service) - 1"
    using t2 [THEN conjunct2, THEN conjunct1, rule_format, OF m2] by simp
  have count: "activeCaptures (release sv2) - activeCaptures (acquire demo_service)
             = int (in_flight [Finished, Finished]) - int (in_flight [Finished, Running])"
    using t2 [THEN conjunct2, THEN conjunct2, THEN conjunct2, THEN conjunct2, rule_format, OF m2]
    by simp
  have jr: "\<exists>pre. journal (release sv2) = [Acquire] @ pre @ [Did ClosePage, Did CloseContext] @ [Release]"
    using d by (simp add: journal_release)
  have fin: "\<exists>s1. moves (acquire demo_service, [Finished, Running]) (s1, [Finished, Finished])
         \<and> activeCaptures s1 = 0
         \<and> (\<exists>pre. journal s1 = [Acquire] @ pre @ [Did ClosePage, Did CloseContext] @ [Release])
         \<and> activeCaptures s1 - activeCaptures (acquire demo_service)
             = int (in_flight [Finished, Finished]) - int (in_flight [Finished, Running])"
    using m2 out in1 jr count by (intro exI [of _ "release sv2"]) (simp add: demo_counter)
  show ?thesis
    using demo_browser demo_slot alone m1 in1 f1 fin by (simp add: demo_counter demo_journal)
qed

text \<open>
  When a call of the \<^verbatim>\<open>try\<close> block throws, the \<^verbatim>\<open>catch\<close> block returns the failure and
  nothing closes the context that was opened: here the navigation times out.
\<close>

lemma capture_failure_leaves_context_open:
  "captureScreenshot
     (demo_env\<lparr>fault := (\<lambda>s. if s = Goto then Some ''Timeout 30000ms exceeded'' else None)\<rparr>)
     demo_png_request demo_service
   = Some (Failure ''Timeout 30000ms exceeded'',
           demo_service\<lparr>journal :=
             [Acquire, Did CreateContext, Did NewPage, Did SetViewportSize, Did EmulateMedia,
              Did SetExtraHTTPHeaders, Threw Goto, Release]\<rparr>)"
  using demo_browser demo_slot
  by (simp add: captureScreenshot_def try_block_def and_then_def await_def succeed_def
      log_event_def demo_env_def demo_png_request_def acquire_def release_def demo_journal)

text \<open>
  The conversion is a chain of two tests on the format. A format that passes neither
  (\<^verbatim>\<open>png\<close>, or any other string) leaves the raster as the browser gave it; when
  nothing throws it is written under a name whose extension is that string, and the
  result reports that string as its format.
\<close>

lemma unknown_format_passes_through:
  assumes "browser sv" and "slot_available sv" and "\<forall>s. fault env s = None"
    and "outputFormat req = Some fmt" and "fmt \<notin> {''jpeg'', ''bmp3'', ''bmp''}"
  shows "\<exists>sv1. captureScreenshot env req sv =
                 Some (Success
                         (screenshot_filename (stamp env) (random_hex env) fmt)
                         (path_join (screenshotPath sv)
                            (screenshot_filename (stamp env) (random_hex env) fmt))
                         (length (raster env))
                         (case width req of None \<Rightarrow> 800 | Some w \<Rightarrow> w)
                         (case height req of None \<Rightarrow> 480 | Some h \<Rightarrow> h)
                         fmt (stamp_done env), sv1)
          \<and> files sv1 (path_join (screenshotPath sv)
                          (screenshot_filename (stamp env) (random_hex env) fmt))
              = Some (File (raster env))
          \<and> screenshot_filename (stamp env) (random_hex env) fmt
              = ''screenshot-''
                @ map (\<lambda>c. if c = CHR '':'' \<or> c = CHR ''.'' then CHR ''-'' else c) (stamp env)
                @ ''-'' @ random_hex env @ ''.'' @ fmt"
proof -
  obtain r sv2 where t: "try_block env req (acquire sv) = (r, sv2)"
    by (cases "try_block env req (acquire sv)")
  have n: "screenshot_filename (stamp env) (random_hex env) fmt
              = ''screenshot-''
                @ map (\<lambda>c. if c = CHR '':'' \<or> c = CHR ''.'' then CHR ''-'' else c) (stamp env)
                @ ''-'' @ random_hex env @ ''.'' @ fmt"
    using assms(5) by (simp add: screenshot_filename_def)
  note u = try_block_unknown_format [OF assms(3,4,5), of "acquire sv"]
  have "captureScreenshot env req sv =
                 Some (Success
                         (screenshot_filename (stamp env) (random_hex env) fmt)
                         (path_join (screenshotPath sv)
                            (screenshot_filename (stamp env) (random_hex env) fmt))
                         (length (raster env))
                         (case width req of None \<Rightarrow> 800 | Some w \<Rightarrow> w)
                         (case height req of None \<Rightarrow> 480 | Some h \<Rightarrow> h)
                         fmt (stamp_done env), release sv2)"
    using assms(1,2) t u by (simp add: captureScreenshot_def n screenshotPath_acquire)
  moreover have "files (release sv2) (path_join (screenshotPath sv)
                          (screenshot_filename (stamp env) (random_hex env) fmt))
              = Some (File (raster env))"
    using t u by (simp add: release_def log_event_def n screenshotPath_acquire)
  ultimately show ?thesis using n by blast
qed

lemma demo_gif_capture:
  "try_block demo_env demo_request (acquire demo_service) = (r, sv1) \<Longrightarrow>
     r = Inr (Success ''screenshot-2024-05-01T10-00-00-000Z-1a2b3c4d.gif''
               ''/data/screenshots/screenshot-2024-05-01T10-00-00-000Z-1a2b3c4d.gif''
               4 800 480 ''gif'' ''2024-05-01T10:00:00.250Z'')
     \<and> files sv1 ''/data/screenshots/screenshot-2024-05-01T10-00-00-000Z-1a2b3c4d.gif''
         = Some (File [137, 80, 78, 71])
     \<and> journal sv1 =
       [Acquire, Did CreateContext, Did NewPage, Did SetViewportSize,
        Did Goto, Did WaitForTimeout, Did Screenshot,
        FsWrite ''/data/screenshots/screenshot-2024-05-01T10-00-00-000Z-1a2b3c4d.gif'',
        Did ClosePage, Did CloseContext]"
  by (auto simp: try_block_def and_then_def await_def succeed_def convert_def writeFileSync_def
      log_event_def request_format_def screenshot_filename_def demo_env_def demo_request_def
      acquire_def demo_screenshotPath demo_journal demo_gif_path)

text \<open>
  On the way to creating a profile the format is checked: \<^verbatim>\<open>validateProfile\<close> refuses a
  configuration whose only fault is the format \<^verbatim>\<open>gif\<close>.
\<close>

lemma validate_demo_gif_config:
  "validateProfile demo_gif_config = [''Output format must be one of: png, jpeg, bmp3, bmp'']"
proof -
  have g: "get_field demo_gif_config ''width'' = None"
    "get_field demo_gif_config ''theme'' = None"
    "get_field demo_gif_config ''outputFormat'' = Some (JStr ''gif'')"
    "get_field demo_gif_config ''url'' = Some (JStr ''http://h/'')"
    "get_field demo_gif_config ''name'' = Some (JStr ''Kitchen'')"
    "get_field demo_gif_config ''height'' = None"
    "get_field demo_gif_config ''refreshInterval'' = None"
    by (simp_all add: demo_gif_config_def get_field_def)
  show ?thesis unfolding validateProfile_def g by (simp add: bad_dimension_def)
qed

text \<open>
  \<^bold>\<open>C4.\<close> An unknown format is to fail before any capture, with nothing stored.
  \<^verbatim>\<open>captureScreenshot\<close> has no test of the format, although the program knows which
  formats it supports (\<^verbatim>\<open>validateProfile\<close> above). A request for \<^verbatim>\<open>gif\<close> renders the
  page, takes the screenshot, writes the PNG raster under a name ending in \<^verbatim>\<open>.gif\<close>
  and returns success with format \<^verbatim>\<open>gif\<close>.
\<close>

theorem unknown_format_is_captured_and_stored:
  "outputFormat demo_request = Some ''gif''
   \<and> fst (the (captureScreenshot demo_env demo_request demo_service))
     = Success ''screenshot-2024-05-01T10-00-00-000Z-1a2b3c4d.gif''
         ''/data/screenshots/screenshot-2024-05-01T10-00-00-000Z-1a2b3c4d.gif''
         4 800 480 ''gif'' ''2024-05-01T10:00:00.250Z''
   \<and> files (snd (the (captureScreenshot demo_env demo_request demo_service)))
         ''/data/screenshots/screenshot-2024-05-01T10-00-00-000Z-1a2b3c4d.gif''
       = Some (File [137, 80, 78, 71])
   \<and> journal (snd (the (captureScreenshot demo_env demo_request demo_service)))
       = [Acquire, Did CreateContext, Did NewPage, Did SetViewportSize,
          Did Goto, Did WaitForTimeout, Did Screenshot,
          FsWrite ''/data/screenshots/screenshot-2024-05-01T10-00-00-000Z-1a2b3c4d.gif'',
          Did ClosePage, Did CloseContext, Release]"
proof -
  obtain r sv1 where t: "try_block demo_env demo_request (acquire demo_service) = (r, sv1)"
    by (cases "try_block demo_env demo_request (acquire demo_service)")
  note d = demo_gif_capture [OF t]
  have "captureScreenshot demo_env demo_request demo_service
          = Some (Success ''screenshot-2024-05-01T10-00-00-000Z-1a2b3c4d.gif''
               ''/data/screenshots/screenshot-2024-05-01T10-00-00-000Z-1a2b3c4d.gif''
               4 800 480 ''gif'' ''2024-05-01T10:00:00.250Z'', release sv1)"
    using t d demo_browser demo_slot by (simp add: captureScreenshot_def)
  then show ?thesis
    using d by (simp add: journal_release release_def log_event_def demo_request_def)
qed

text \<open>
  The format string goes into the file name unchecked, and the name through
  \<^verbatim>\<open>path.join\<close>: a format holding \<^verbatim>\<open>..\<close> segments moves the write out of the storage
  directory. Here the raster lands in \<^verbatim>\<open>/data/y\<close>.
\<close>

lemma demo_escape_path:
  "path_join ''/data/screenshots'' ''screenshot-2024-05-01T10-00-00-000Z-1a2b3c4d.x/../../y''
     = ''/data/y''"
  by (simp add: path_join_def path_normalize_def Let_def)

lemma demo_escape_capture:
  "try_block demo_env demo_escape_request (acquire demo_service) = (r, sv1) \<Longrightarrow>
     r = Inr (Success ''screenshot-2024-05-01T10-00-00-000Z-1a2b3c4d.x/../../y''
               ''/data/y'' 4 800 480 ''x/../../y'' ''2024-05-01T10:00:00.250Z'')
     \<and> files sv1 ''/data/y'' = Some (File [137, 80, 78, 71])
     \<and> journal sv1 =
       [Acquire, Did CreateContext, Did NewPage, Did SetViewportSize,
        Did Goto, Did WaitForTimeout, Did Screenshot, FsWrite ''/data/y'',
        Did ClosePage, Did CloseContext]"
  by (auto simp: try_block_def and_then_def await_def succeed_def convert_def writeFileSync_def
      log_event_def request_format_def screenshot_filename_def demo_env_def demo_escape_request_def
      acquire_def demo_screenshotPath demo_journal demo_escape_path)

lemma format_string_escapes_storage_root:
  "fst (the (captureScreenshot demo_env demo_escape_request demo_service))
     = Success ''screenshot-2024-05-01T10-00-00-000Z-1a2b3c4d.x/../../y''
         ''/data/y'' 4 800 480 ''x/../../y'' ''2024-05-01T10:00:00.250Z''
   \<and> files (snd (the (captureScreenshot demo_env demo_escape_request demo_service))) ''/data/y''
       = Some (File [137, 80, 78, 71])
   \<and> files demo_service ''/data/y'' = None
   \<and> \<not> inside_root (screenshotPath demo_service) ''/data/y''"
proof -
  obtain r sv1 where t: "try_block demo_env demo_escape_request (acquire demo_service) = (r, sv1)"
    by (cases "try_block demo_env demo_escape_request (acquire demo_service)")
  note d = demo_escape_capture [OF t]
  have "captureScreenshot demo_env demo_escape_request demo_service
          = Some (Success ''screenshot-2024-05-01T10-00-00-000Z-1a2b3c4d.x/../../y''
               ''/data/y'' 4 800 480 ''x/../../y'' ''2024-05-01T10:00:00.250Z'', release sv1)"
    using t d demo_browser demo_slot by (simp add: captureScreenshot_def)
  then show ?thesis
    using d
    by (simp add: release_def log_event_def demo_screenshotPath inside_root_def
        demo_service_def new_service_def demo_files_def)
qed

subsection \<open>The throttle\<close>

lemma moves_bound: "moves s s1 \<Longrightarrow> maxConcurrent (fst s1) = maxConcurrent (fst s)"
  by (induction rule: moves.induct)
    (auto simp: acquire_def release_def log_event_def dest: try_block_counters)

lemma moves_throttle_ok:
  assumes "moves s s1" and "throttle_ok s"
  shows "throttle_ok s1"
  using assms
proof (induction rule: moves.induct)
  case (call_rejected sv ps)
  then show ?case by (simp add: throttle_ok_def in_flight_append)
next
  case (call_admitted sv ps)
  then show ?case
    by (simp add: throttle_ok_def in_flight_append slot_available_def acquire_def log_event_def)
next
  case (call_queued sv ps)
  then show ?case by (simp add: throttle_ok_def in_flight_append)
next
  case (poll_admitted i ps sv)
  from in_flight_update [OF poll_admitted(1), of Running] poll_admitted(2)
  have "in_flight (ps[i := Running]) = in_flight ps + 1" by simp
  with poll_admitted show ?case
    by (simp add: throttle_ok_def slot_available_def acquire_def log_event_def)
next
  case (poll_again i ps sv)
  then show ?case by simp
next
  case (body_finished i ps env req sv r sv1)
  from in_flight_update [OF body_finished(1), of Finished] body_finished(2)
  have "in_flight (ps[i := Finished]) + 1 = in_flight ps" by simp
  with body_finished try_block_counters [OF body_finished(3)] show ?case
    by (simp add: throttle_ok_def release_def log_event_def)
next
  case (browser_changed sv ps b)
  then show ?case by (simp add: throttle_ok_def)
qed

lemma moves_admits:
  assumes "moves (sv, ps) (sv1, ps1)" and "in_flight ps1 > in_flight ps"
  shows "slot_available sv"
  using assms
proof (cases rule: moves.cases)
  case (poll_again i)
  with assms(2) show ?thesis by simp
next
  case (body_finished i env req r sv2)
  from in_flight_update [OF body_finished(3), of Finished] body_finished(4)
  have "in_flight (ps[i := Finished]) + 1 = in_flight ps" by simp
  with assms(2) body_finished show ?thesis by simp
qed (auto simp: in_flight_append)

lemma reachable_bound:
  "reachable path_opt max_opt fs s \<Longrightarrow>
     maxConcurrent (fst s) = (case max_opt of None \<Rightarrow> 3 | Some n \<Rightarrow> n)"
  by (induction rule: reachable.induct) (simp_all add: new_service_def moves_bound)

lemma reachable_throttle_ok:
  assumes "reachable path_opt max_opt fs s" and "0 \<le> maxConcurrent (fst s)"
  shows "throttle_ok s"
  using assms
proof (induction rule: reachable.induct)
  case (initial path_opt max_opt fs)
  then show ?case by (simp add: throttle_ok_def new_service_def in_flight_def)
next
  case (after_move path_opt max_opt fs s s1)
  from after_move(2) have "maxConcurrent (fst s1) = maxConcurrent (fst s)" by (rule moves_bound)
  with after_move show ?case by (auto intro: moves_throttle_ok)
qed

text \<open>
  \<^bold>\<open>C2.\<close> In every state that calls, polls and completions can lead to from a new
  service with a bound \<open>N \<ge> 0\<close> (3 when none is configured): the counter
  \<^verbatim>\<open>activeCaptures\<close> is the number of calls past the wait loop and not yet finished, that
  number is at most \<open>N\<close>, and a move that lets one more call past the loop starts from a
  state with fewer than \<open>N\<close> of them.
\<close>

theorem throttle_bound:
  assumes "reachable path_opt max_opt fs (sv, ps)" and "0 \<le> maxConcurrent sv"
  shows "activeCaptures sv = int (in_flight ps)
         \<and> int (in_flight ps) \<le> maxConcurrent sv
         \<and> maxConcurrent sv = (case max_opt of None \<Rightarrow> 3 | Some n \<Rightarrow> n)
         \<and> (\<forall>sv1 ps1. moves (sv, ps) (sv1, ps1) \<longrightarrow> in_flight ps1 > in_flight ps
               \<longrightarrow> int (in_flight ps) < maxConcurrent sv)"
proof -
  have ok: "throttle_ok (sv, ps)"
    using reachable_throttle_ok [OF assms(1)] assms(2) by simp
  have b: "maxConcurrent sv = (case max_opt of None \<Rightarrow> 3 | Some n \<Rightarrow> n)"
    using reachable_bound [OF assms(1)] by simp
  have "int (in_flight ps) < maxConcurrent sv"
    if "moves (sv, ps) (sv1, ps1)" and "in_flight ps1 > in_flight ps" for sv1 ps1
    using moves_admits [OF that] ok by (simp add: slot_available_def throttle_ok_def)
  with ok b show ?thesis by (simp add: throttle_ok_def)
qed

lemma demo_three_running:
  "reachable None None demo_files
     (acquire (acquire (acquire demo_service)), [Running, Running, Running, Waiting])"
proof -
  have b: "browser demo_service" "browser (acquire demo_service)"
    "browser (acquire (acquire demo_service))" "browser (acquire (acquire (acquire demo_service)))"
    by (simp_all add: demo_service_def new_service_def acquire_def log_event_def)
  have a: "slot_available demo_service" "slot_available (acquire demo_service)"
    "slot_available (acquire (acquire demo_service))"
    "\<not> slot_available (acquire (acquire (acquire demo_service)))"
    by (simp_all add: slot_available_def demo_service_def new_service_def acquire_def log_event_def)
  have "reachable None None demo_files (new_service None None demo_files, [])"
    by (rule reachable.initial)
  moreover have "moves (new_service None None demo_files, []) (demo_service, [])"
    unfolding demo_service_def by (rule moves.browser_changed)
  ultimately have "reachable None None demo_files (demo_service, [])"
    by (rule reachable.after_move)
  moreover have "moves (demo_service, []) (acquire demo_service, [Running])"
    using moves.call_admitted [OF b(1) a(1), of "[]"] by simp
  ultimately have "reachable None None demo_files (acquire demo_service, [Running])"
    by (rule reachable.after_move)
  moreover have "moves (acquire demo_service, [Running])
                   (acquire (acquire demo_service), [Running, Running])"
    using moves.call_admitted [OF b(2) a(2), of "[Running]"] by simp
  ultimately have "reachable None None demo_files
                     (acquire (acquire demo_service), [Running, Running])"
    by (rule reachable.after_move)
  moreover have "moves (acquire (acquire demo_service), [Running, Running])
                   (acquire (acquire (acquire demo_service)), [Running, Running, Running])"
    using moves.call_admitted [OF b(3) a(3), of "[Running, Running]"] by simp
  ultimately have "reachable None None demo_files
                     (acquire (acquire (acquire demo_service)), [Running, Running, Running])"
    by (rule reachable.after_move)
  moreover have "moves (acquire (acquire (acquire demo_service)), [Running, Running, Running])
                   (acquire (acquire (acquire demo_service)), [Running, Running, Running, Waiting])"
    using moves.call_queued [OF b(4) a(4), of "[Running, Running, Running]"] by simp
  ultimately show ?thesis
    by (rule reachable.after_move)
qed

theorem throttle_bound_witness:
  "reachable None None demo_files
     (acquire (acquire (acquire demo_service)), [Running, Running, Running, Waiting])
   \<and> maxConcurrent (acquire (acquire (acquire demo_service))) = 3
   \<and> activeCaptures (acquire (acquire (acquire demo_service)))
       = int (in_flight [Running, Running, Running, Waiting])
   \<and> int (in_flight [Running, Running, Running, Waiting])
       \<le> maxConcurrent (acquire (acquire (acquire demo_service)))"
proof -
  have m: "maxConcurrent (acquire (acquire (acquire demo_service))) = 3"
    by (simp add: demo_service_def new_service_def acquire_def log_event_def)
  then have "0 \<le> maxConcurrent (acquire (acquire (acquire demo_service)))"
    by simp
  from throttle_bound [OF demo_three_running this] demo_three_running m
  show ?thesis by simp
qed

subsection \<open>Conversion\<close>

lemma convertToBMP3_one_bit:
  "convertToBMP3 env buf 1 =
     (case fault env ConvertBMP3 of
        Some msg \<Rightarrow> Inl msg
      | None \<Rightarrow> Inr (png_encode env \<lparr>colors = Some 2, dither = Some 1\<rparr>
                       (threshold 128 (greyscale env buf))))"
  by (simp add: convertToBMP3_def Let_def split: option.splits)

lemma convertToBMP3_two_bit:
  "convertToBMP3 env buf 2 =
     (case fault env ConvertBMP3 of
        Some msg \<Rightarrow> Inl msg
      | None \<Rightarrow> Inr (png_encode env \<lparr>colors = Some 4, dither = None\<rparr> (greyscale env buf)))"
  by (simp add: convertToBMP3_def Let_def split: option.splits)

text \<open>
  \<^bold>\<open>C8.\<close> At 1-bit depth the hard threshold comes first and the palette step of the
  encoder, with its error diffusion, second: the encoder is handed an image of pure black
  and pure white. Whatever the encoder does, two rasters whose pixels fall on the same
  sides of 128 give the same output, so a flat mid-grey comes out as a flat black does.
\<close>

theorem one_bit_output_ignores_grey_levels:
  assumes "threshold 128 (greyscale env a) = threshold 128 (greyscale env b)"
  shows "convertToBMP3 env a 1 = convertToBMP3 env b 1"
  using assms by (simp add: convertToBMP3_one_bit split: option.splits)

theorem one_bit_output_ignores_grey_levels_witness:
  "threshold 128 (greyscale demo_env [100, 100, 100, 100]) = [[0, 0, 0, 0]]
   \<and> threshold 128 (greyscale demo_env [0, 0, 0, 0]) = [[0, 0, 0, 0]]
   \<and> convertToBMP3 demo_env [100, 100, 100, 100] 1 = convertToBMP3 demo_env [0, 0, 0, 0] 1"
proof -
  have a: "threshold 128 (greyscale demo_env [100, 100, 100, 100]) = [[0, 0, 0, 0]]"
    and b: "threshold 128 (greyscale demo_env [0, 0, 0, 0]) = [[0, 0, 0, 0]]"
    by (simp_all add: threshold_def demo_env_def)
  then have "threshold 128 (greyscale demo_env [100, 100, 100, 100])
             = threshold 128 (greyscale demo_env [0, 0, 0, 0])"
    by simp
  from one_bit_output_ignores_grey_levels [OF this] a b show ?thesis by simp
qed

end
